theory Spec2Isabelle
  imports Main
begin

section \<open>Strings\<close>

text \<open>
  Text is modelled as \<^typ>\<open>string\<close>, the UTF-8 bytes of the JavaScript string. The
  formatters only concatenate text, so the encoding is carried through unchanged.
\<close>

definition nl :: string where
  "nl = [CHR 0x0A]"

text \<open>The warning sign U+26A0 U+FE0F of the red-flags header, as its UTF-8 bytes.\<close>

definition warning_sign :: string where
  "warning_sign = [CHR 0xE2, CHR 0x9A, CHR 0xA0, CHR 0xEF, CHR 0xB8, CHR 0x8F]"

text \<open>
  Decimal rendering of a loop index, as a template literal renders the number
  \<open>i + 1\<close>.
\<close>

definition digit_char :: "nat \<Rightarrow> char" where
  "digit_char d = char_of (48 + d)"

fun show_nat :: "nat \<Rightarrow> string" where
  "show_nat n = (if n < 10 then [digit_char n] else show_nat (n div 10) @ [digit_char (n mod 10)])"

text \<open>
  \<open>String.prototype.toUpperCase\<close>, on ASCII text: the letters a to z are mapped to A
  to Z and every other byte is kept. The formatters apply it to an action type only,
  which the type of \<open>NextStepAction\<close> restricts to five ASCII tokens.
\<close>

definition toUpperCase_char :: "char \<Rightarrow> char" where
  "toUpperCase_char c =
     (let n = (of_char c :: nat) in if 97 \<le> n \<and> n \<le> 122 then char_of (n - 32) else c)"

definition toUpperCase :: "string \<Rightarrow> string" where
  "toUpperCase s = map toUpperCase_char s"

text \<open>
  Truthiness of a value of type \<open>string | null | undefined\<close>: \<open>None\<close> stands for both
  \<open>null\<close> and \<open>undefined\<close>, and the empty string is falsy as well.
\<close>

fun truthy :: "string option \<Rightarrow> bool" where
  "truthy None = False"
| "truthy (Some s) = (s \<noteq> [])"

text \<open>
  \<open>Array.prototype.forEach\<close> with a callback that updates the enclosing variable
  \<open>output\<close>: the callback takes the element, its index and the current output, and
  returns the new output.
\<close>

fun forEach_from :: "nat \<Rightarrow> ('a \<Rightarrow> nat \<Rightarrow> string \<Rightarrow> string) \<Rightarrow> 'a list \<Rightarrow> string \<Rightarrow> string" where
  "forEach_from i f [] out = out"
| "forEach_from i f (x # xs) out = forEach_from (Suc i) f xs (f x i out)"

definition forEach :: "('a \<Rightarrow> nat \<Rightarrow> string \<Rightarrow> string) \<Rightarrow> 'a list \<Rightarrow> string \<Rightarrow> string" where
  "forEach f xs out = forEach_from 0 f xs out"

section \<open>The validated payload's types\<close>

text \<open>
  The types inferred from the schemas (\<open>z.infer\<close>). A field declared
  \<open>.optional().nullable()\<close> is an option.
\<close>

datatype Severity = mild | moderate | severe

datatype ActionType = diagnostic | treatment | referral | follow_up | education

datatype Priority = high | medium | low

fun severity_token :: "Severity \<Rightarrow> string" where
  "severity_token mild = ''mild''"
| "severity_token moderate = ''moderate''"
| "severity_token severe = ''severe''"

fun action_type_token :: "ActionType \<Rightarrow> string" where
  "action_type_token diagnostic = ''diagnostic''"
| "action_type_token treatment = ''treatment''"
| "action_type_token referral = ''referral''"
| "action_type_token follow_up = ''follow-up''"
| "action_type_token education = ''education''"

fun priority_token :: "Priority \<Rightarrow> string" where
  "priority_token high = ''high''"
| "priority_token medium = ''medium''"
| "priority_token low = ''low''"

record PhysicalExamFinding =
  body_part :: string
  finding :: string

record Assessment =
  diagnosis :: string
  icd_code :: "string option"
  severity :: "Severity option"

record ClinicalSummary =
  patient_name :: string
  visit_date :: string
  chief_complaint :: string
  history_of_present_illness :: string
  vital_signs :: "string option"
  physical_exam_findings :: "PhysicalExamFinding list"
  assessments :: "Assessment list"
  additional_notes :: "string option"

record NextStepAction =
  action_type :: ActionType
  description :: string
  priority :: "Priority option"
  timeline :: "string option"

record NextSteps =
  actions :: "NextStepAction list"
  follow_up_appointment :: "string option"
  red_flags :: "string list option"

section \<open>The document formatters\<close>

subsection \<open>formatClinicalSummary\<close>

definition finding_step :: "PhysicalExamFinding \<Rightarrow> nat \<Rightarrow> string \<Rightarrow> string" where
  "finding_step f i out = out @ ''- '' @ body_part f @ '': '' @ finding f @ nl"

definition assessment_step :: "Assessment \<Rightarrow> nat \<Rightarrow> string \<Rightarrow> string" where
  "assessment_step a i out =
     (let out = out @ show_nat (i + 1) @ ''. '' @ diagnosis a;
          out = (if truthy (icd_code a)
                 then out @ '' (ICD-10: '' @ the (icd_code a) @ '')'' else out);
          out = (if severity a \<noteq> None
                 then out @ '' - Severity: '' @ severity_token (the (severity a)) else out)
      in out @ nl)"

definition formatClinicalSummary :: "ClinicalSummary \<Rightarrow> string" where
  "formatClinicalSummary summary =
     (let out = ''Patient: '' @ patient_name summary @ nl
              @ ''Date: '' @ visit_date summary @ nl
              @ nl
              @ ''Chief Complaint: '' @ chief_complaint summary @ nl
              @ nl
              @ ''History of Present Illness:'' @ nl
              @ history_of_present_illness summary @ nl;
          out = (if truthy (vital_signs summary)
                 then out @ nl @ ''Vital Signs:'' @ nl @ the (vital_signs summary) @ nl
                 else out);
          out = (if length (physical_exam_findings summary) > 0
                 then forEach finding_step (physical_exam_findings summary)
                        (out @ nl @ ''Physical Examination:'' @ nl)
                 else out);
          out = out @ nl @ ''Assessment:'' @ nl;
          out = forEach assessment_step (assessments summary) out;
          out = (if truthy (additional_notes summary)
                 then out @ nl @ ''Additional Notes:'' @ nl @ the (additional_notes summary) @ nl
                 else out)
      in out)"

subsection \<open>formatNextSteps\<close>

definition action_step :: "NextStepAction \<Rightarrow> nat \<Rightarrow> string \<Rightarrow> string" where
  "action_step a i out =
     (let out = out @ show_nat (i + 1) @ ''. ['' @ toUpperCase (action_type_token (action_type a))
                @ ''] '' @ description a;
          out = (if truthy (timeline a)
                 then out @ '' (Timeline: '' @ the (timeline a) @ '')'' else out);
          out = (if priority a \<noteq> None
                 then out @ '' [Priority: '' @ priority_token (the (priority a)) @ '']'' else out)
      in out @ nl)"

definition flag_step :: "string \<Rightarrow> nat \<Rightarrow> string \<Rightarrow> string" where
  "flag_step flag i out = out @ ''- '' @ flag @ nl"

definition formatNextSteps :: "NextSteps \<Rightarrow> string" where
  "formatNextSteps nextSteps =
     (let out = forEach action_step (actions nextSteps) [];
          out = (if truthy (follow_up_appointment nextSteps)
                 then out @ nl @ ''Follow-up Appointment: ''
                          @ the (follow_up_appointment nextSteps) @ nl
                 else out);
          out = (if red_flags nextSteps \<noteq> None \<and> length (the (red_flags nextSteps)) > 0
                 then forEach flag_step (the (red_flags nextSteps))
                        (out @ nl @ warning_sign @ '' Red Flags - Call immediately if:'' @ nl)
                 else out)
      in out)"

section \<open>JSON values\<close>

text \<open>
  The values \<open>JSON.parse\<close> returns. An object is the list of its entries and is read
  through \<^const>\<open>map_of\<close>; \<open>JSON.parse\<close> delivers one entry per key. Numbers are
  restricted to integers: no declared field is a number, and the handler only ever
  renders one as text.
\<close>

datatype json =
    JNull
  | JBool bool
  | JNum int
  | JStr string
  | JArr "json list"
  | JObj "(string \<times> json) list"

datatype js_error = SyntaxError | TypeError

text \<open>
  Reading a property \<open>parsed.k\<close>, for the keys the handler reads (\<open>type\<close>,
  \<open>content\<close>, \<open>data\<close>, \<open>message\<close>, which no prototype defines): \<open>null\<close> has no
  properties and raises, an object gives its entry or \<open>undefined\<close> (\<open>None\<close>), every
  other value gives \<open>undefined\<close>.
\<close>

fun get_prop :: "json \<Rightarrow> string \<Rightarrow> js_error + json option" where
  "get_prop JNull k = Inl TypeError"
| "get_prop (JObj kv) k = Inr (map_of kv k)"
| "get_prop v k = Inr None"

fun join :: "string \<Rightarrow> string list \<Rightarrow> string" where
  "join sep [] = []"
| "join sep [x] = x"
| "join sep (x # y # ys) = x @ sep @ join sep (y # ys)"

text \<open>
  The conversion to text that \<open>+=\<close> on a string and a template literal apply
  (\<open>ToString\<close>): a string is itself, an array joins its elements with commas (a
  \<open>null\<close> element giving the empty text), an object is \<open>[object Object]\<close>.
\<close>

fun js_to_string :: "json \<Rightarrow> string" where
  "js_to_string JNull = ''null''"
| "js_to_string (JBool b) = (if b then ''true'' else ''false'')"
| "js_to_string (JNum n) = (if n < 0 then ''-'' @ show_nat (nat (- n)) else show_nat (nat n))"
| "js_to_string (JStr s) = s"
| "js_to_string (JArr xs) =
     join '','' (map (\<lambda>x. if x = JNull then [] else js_to_string x) xs)"
| "js_to_string (JObj kv) = ''[object Object]''"

fun to_string :: "json option \<Rightarrow> string" where
  "to_string None = ''undefined''"
| "to_string (Some v) = js_to_string v"

section \<open>The schemas\<close>

subsection \<open>The schema combinators\<close>

text \<open>
  The schemas are built from the combinators of the validation library:
  \<open>z.string()\<close>, \<open>z.enum([...])\<close>, \<open>z.array(s)\<close>, \<open>z.object({...})\<close>,
  \<open>s.optional()\<close> and \<open>s.nullable()\<close>. The library itself is not part of the
  repository; \<open>parse\<close> below follows its documented behaviour: every key of an object's
  shape and every element of an array is checked, the issues of all of them are
  collected with their paths, and on success the result holds the declared keys only
  (unknown keys are stripped). Issue codes are named as in version 3 of the library.
\<close>

datatype schema =
    ZString
  | ZEnum "string list"
  | ZArray schema
  | ZObject "(string \<times> schema) list"
  | ZOptional schema
  | ZNullable schema

datatype path_elem = Key string | Index nat

datatype issue_code = invalid_type | invalid_enum_value

type_synonym path = "path_elem list"

type_synonym issue = "path \<times> issue_code"

fun under :: "path_elem \<Rightarrow> issue \<Rightarrow> issue" where
  "under e (p, c) = (e # p, c)"

text \<open>Whether a schema accepts \<open>undefined\<close>, the value of an absent key.\<close>

fun accepts_undefined :: "schema \<Rightarrow> bool" where
  "accepts_undefined (ZOptional s) = True"
| "accepts_undefined (ZNullable s) = accepts_undefined s"
| "accepts_undefined s = False"

text \<open>
  Adding the result of one key (or one element) to the result of the remaining ones:
  issues accumulate, and a value is kept only while there is no issue. A key whose
  value is \<open>undefined\<close> and that the input does not have is not set in the result.
\<close>

fun merge_field ::
  "string \<Rightarrow> issue list + json option \<Rightarrow> issue list + (string \<times> json) list
     \<Rightarrow> issue list + (string \<times> json) list" where
  "merge_field k (Inl e) (Inl es) = Inl (map (under (Key k)) e @ es)"
| "merge_field k (Inl e) (Inr out) = Inl (map (under (Key k)) e)"
| "merge_field k (Inr v) (Inl es) = Inl es"
| "merge_field k (Inr None) (Inr out) = Inr out"
| "merge_field k (Inr (Some v)) (Inr out) = Inr ((k, v) # out)"

fun merge_item ::
  "nat \<Rightarrow> issue list + json \<Rightarrow> issue list + json list \<Rightarrow> issue list + json list" where
  "merge_item i (Inl e) (Inl es) = Inl (map (under (Index i)) e @ es)"
| "merge_item i (Inl e) (Inr out) = Inl (map (under (Index i)) e)"
| "merge_item i (Inr v) (Inl es) = Inl es"
| "merge_item i (Inr v) (Inr out) = Inr (v # out)"

fun parse :: "schema \<Rightarrow> json \<Rightarrow> issue list + json"
  and parse_field :: "schema \<Rightarrow> json option \<Rightarrow> issue list + json option"
  and parse_shape :: "(string \<times> schema) list \<Rightarrow> (string \<times> json) list
      \<Rightarrow> issue list + (string \<times> json) list"
  and parse_items :: "schema \<Rightarrow> nat \<Rightarrow> json list \<Rightarrow> issue list + json list" where
  "parse ZString (JStr s) = Inr (JStr s)"
| "parse ZString v = Inl [([], invalid_type)]"
| "parse (ZEnum vals) (JStr s) =
     (if s \<in> set vals then Inr (JStr s) else Inl [([], invalid_enum_value)])"
| "parse (ZEnum vals) v = Inl [([], invalid_type)]"
| "parse (ZArray item) (JArr xs) = map_sum id JArr (parse_items item 0 xs)"
| "parse (ZArray item) v = Inl [([], invalid_type)]"
| "parse (ZObject shape) (JObj kv) = map_sum id JObj (parse_shape shape kv)"
| "parse (ZObject shape) v = Inl [([], invalid_type)]"
| "parse (ZOptional s) v = parse s v"
| "parse (ZNullable s) JNull = Inr JNull"
| "parse (ZNullable s) v = parse s v"
| "parse_field s None = (if accepts_undefined s then Inr None else Inl [([], invalid_type)])"
| "parse_field s (Some v) = map_sum id Some (parse s v)"
| "parse_shape [] kv = Inr []"
| "parse_shape ((k, s) # shape) kv =
     merge_field k (parse_field s (map_of kv k)) (parse_shape shape kv)"
| "parse_items item i [] = Inr []"
| "parse_items item i (x # xs) = merge_item i (parse item x) (parse_items item (Suc i) xs)"

text \<open>\<open>schema.safeParse(input)\<close>, where the input may be \<open>undefined\<close>.\<close>

definition safeParse :: "schema \<Rightarrow> json option \<Rightarrow> issue list + json option" where
  "safeParse s input = parse_field s input"

subsection \<open>The declared schemas\<close>

definition PhysicalExamFindingSchema :: schema where
  "PhysicalExamFindingSchema = ZObject
     [(''body_part'', ZString),
      (''finding'', ZString)]"

definition AssessmentSchema :: schema where
  "AssessmentSchema = ZObject
     [(''diagnosis'', ZString),
      (''icd_code'', ZNullable (ZOptional ZString)),
      (''severity'', ZNullable (ZOptional (ZEnum [''mild'', ''moderate'', ''severe''])))]"

definition ClinicalSummarySchema :: schema where
  "ClinicalSummarySchema = ZObject
     [(''patient_name'', ZString),
      (''visit_date'', ZString),
      (''chief_complaint'', ZString),
      (''history_of_present_illness'', ZString),
      (''vital_signs'', ZNullable (ZOptional ZString)),
      (''physical_exam_findings'', ZArray PhysicalExamFindingSchema),
      (''assessments'', ZArray AssessmentSchema),
      (''additional_notes'', ZNullable (ZOptional ZString))]"

definition PatientInstructionSchema :: schema where
  "PatientInstructionSchema = ZObject
     [(''instruction'', ZString),
      (''category'', ZString)]"

definition PatientFollowUpEmailSchema :: schema where
  "PatientFollowUpEmailSchema = ZObject
     [(''greeting'', ZString),
      (''summary_of_findings'', ZString),
      (''treatment_plan'', ZString),
      (''patient_instructions'', ZArray PatientInstructionSchema),
      (''warning_signs'', ZArray ZString),
      (''next_steps_timeline'', ZString),
      (''closing'', ZString),
      (''physician_signature'', ZString)]"

definition NextStepActionSchema :: schema where
  "NextStepActionSchema = ZObject
     [(''action_type'', ZEnum
         [''diagnostic'', ''treatment'', ''referral'', ''follow-up'', ''education'']),
      (''description'', ZString),
      (''priority'', ZNullable (ZOptional (ZEnum [''high'', ''medium'', ''low'']))),
      (''timeline'', ZNullable (ZOptional ZString))]"

definition NextStepsSchema :: schema where
  "NextStepsSchema = ZObject
     [(''actions'', ZArray NextStepActionSchema),
      (''follow_up_appointment'', ZNullable (ZOptional ZString)),
      (''red_flags'', ZNullable (ZOptional (ZArray ZString)))]"

definition ConsultationSummaryResponseSchema :: schema where
  "ConsultationSummaryResponseSchema = ZObject
     [(''clinical_summary'', ClinicalSummarySchema),
      (''next_steps'', NextStepsSchema),
      (''patient_email'', PatientFollowUpEmailSchema),
      (''generation_timestamp'', ZString),
      (''model_version'', ZNullable (ZOptional ZString))]"

section \<open>The streaming session\<close>

text \<open>
  The state \<open>handleSubmit\<close> and its callbacks work on: the component's state variables
  \<open>output\<close> (here \<open>output_text\<close>), \<open>loading\<close> and \<open>structuredOutput\<close>, the local
  variable \<open>buffer\<close>, and
  the effects on the outside, each recorded in order: the alerts shown, the console
  entries written, the requests handed to \<open>fetchEventSource\<close>, and whether the abort
  controller was triggered.
\<close>

datatype log_entry = ConsoleLog string | ConsoleWarn string | ConsoleError string

record request =
  authorization :: string
  body_patient_name :: string
  body_date_of_visit :: "string option"
  body_notes :: string

record form =
  patientName :: string
  visitDate :: "string option"
  notes_text :: string

record session =
  output_text :: string
  loading :: bool
  structuredOutput :: "json option"
  buffer :: string
  alerts :: "string list"
  console :: "log_entry list"
  requests :: "request list"
  aborted :: bool

text \<open>
  \<open>handleSubmit\<close> up to the call of \<open>fetchEventSource\<close>. The token is what
  \<open>getToken()\<close> resolved to; \<open>!jwt\<close> holds for \<open>null\<close> and for the empty string. The
  visit date of the form is taken as already cut to its first ten characters.
\<close>

definition handleSubmit :: "string option \<Rightarrow> form \<Rightarrow> session \<Rightarrow> session" where
  "handleSubmit jwt f s =
     (let s = s\<lparr>output_text := []\<rparr>;
          s = s\<lparr>loading := True\<rparr>
      in if \<not> truthy jwt
         then (let s = s\<lparr>output_text := ''Authentication required''\<rparr> in s\<lparr>loading := False\<rparr>)
         else (let s = s\<lparr>aborted := False\<rparr>;
                   s = s\<lparr>buffer := []\<rparr>
               in s\<lparr>requests := requests s @
                    [\<lparr>authorization = ''Bearer '' @ the jwt,
                      body_patient_name = patientName f,
                      body_date_of_visit = visitDate f,
                      body_notes = notes_text f\<rparr>]\<rparr>))"

text \<open>
  The body of the \<open>try\<close> block of \<open>onmessage\<close>. \<open>JSON_parse\<close> stands for the built-in
  \<open>JSON.parse\<close>: \<open>None\<close> when it raises a \<open>SyntaxError\<close>. A \<open>case\<close> label of the
  \<open>switch\<close> matches by strict equality, so only the string itself.
\<close>

definition onmessage_try ::
  "(string \<Rightarrow> json option) \<Rightarrow> session \<Rightarrow> string \<Rightarrow> js_error + session" where
  "onmessage_try JSON_parse s data =
     (case JSON_parse data of
        None \<Rightarrow> Inl SyntaxError
      | Some parsed \<Rightarrow>
          (case get_prop parsed ''type'' of
             Inl e \<Rightarrow> Inl e
           | Inr ty \<Rightarrow>
               if ty = Some (JStr ''chunk'') then
                 (case get_prop parsed ''content'' of
                    Inl e \<Rightarrow> Inl e
                  | Inr content \<Rightarrow> Inr (s\<lparr>buffer := buffer s @ to_string content\<rparr>))
               else if ty = Some (JStr ''complete'') then
                 (let s = s\<lparr>console := console s
                            @ [ConsoleLog ''Stream complete, received validated data'']\<rparr>
                  in case get_prop parsed ''data'' of
                       Inl e \<Rightarrow> Inl e
                     | Inr d \<Rightarrow>
                         (case safeParse ConsultationSummaryResponseSchema d of
                            Inr result_data \<Rightarrow>
                              Inr (s\<lparr>structuredOutput := result_data, loading := False\<rparr>)
                          | Inl result_error \<Rightarrow>
                              Inr (s\<lparr>console := console s @ [ConsoleError ''Validation failed:''],
                                      alerts := alerts s @ [''Failed to validate response''],
                                      loading := False\<rparr>)))
               else if ty = Some (JStr ''error'') then
                 (case get_prop parsed ''message'' of
                    Inl e \<Rightarrow> Inl e
                  | Inr message \<Rightarrow>
                      Inr (s\<lparr>console := console s @ [ConsoleError ''Backend error:''],
                              alerts := alerts s @ [''Error: '' @ to_string message],
                              loading := False\<rparr>))
               else Inr (s\<lparr>console := console s @ [ConsoleWarn ''Unknown message type:'']\<rparr>)))"

text \<open>
  \<open>onmessage\<close>: the \<open>try\<close> block with its \<open>catch\<close>, which logs and returns. The result
  is \<open>Inl\<close> when the handler raises to the transport.
\<close>

definition onmessage ::
  "(string \<Rightarrow> json option) \<Rightarrow> session \<Rightarrow> string \<Rightarrow> js_error + session" where
  "onmessage JSON_parse s data =
     (case onmessage_try JSON_parse s data of
        Inr s' \<Rightarrow> Inr s'
      | Inl err \<Rightarrow>
          Inr (s\<lparr>console := console s
                  @ [ConsoleError ''Failed to parse SSE message:'', ConsoleLog ''Raw data:'']\<rparr>))"

definition onclose :: "session \<Rightarrow> session" where
  "onclose s = s\<lparr>loading := False\<rparr>"

definition onerror :: "session \<Rightarrow> session" where
  "onerror s =
     (let s = s\<lparr>console := console s @ [ConsoleError ''SSE error:'']\<rparr>;
          s = s\<lparr>aborted := True\<rparr>
      in s\<lparr>loading := False\<rparr>)"

text \<open>
  The transport delivering a sequence of messages to \<open>onmessage\<close>, one after the
  other; it stops at a message for which the handler raises.
\<close>

fun deliver :: "(string \<Rightarrow> json option) \<Rightarrow> session \<Rightarrow> string list \<Rightarrow> js_error + session" where
  "deliver JSON_parse s [] = Inr s"
| "deliver JSON_parse s (d # ds) =
     (case onmessage JSON_parse s d of
        Inl e \<Rightarrow> Inl e
      | Inr s' \<Rightarrow> deliver JSON_parse s' ds)"

section \<open>Notions of the specification\<close>

subsection \<open>Envelopes\<close>

text \<open>
  The envelope a decoded message stands for, read off the decoded value. A message is
  \<open>Unknown\<close> when its data is not JSON (\<open>None\<close>) or when its \<open>type\<close> field is not one
  of the three tags; a value without a \<open>type\<close> field has none of the tags.
\<close>

fun envelope_type :: "json \<Rightarrow> json option" where
  "envelope_type (JObj kv) = map_of kv ''type''"
| "envelope_type v = None"

fun is_unknown :: "json option \<Rightarrow> bool" where
  "is_unknown None = True"
| "is_unknown (Some parsed) =
     (envelope_type parsed \<notin>
        {Some (JStr ''chunk''), Some (JStr ''complete''), Some (JStr ''error'')})"

text \<open>\<open>Chunk{content}\<close> and \<open>Error{message}\<close>, each carrying a text.\<close>

fun is_chunk :: "json option \<Rightarrow> string \<Rightarrow> bool" where
  "is_chunk (Some (JObj kv)) c =
     (map_of kv ''type'' = Some (JStr ''chunk'') \<and> map_of kv ''content'' = Some (JStr c))"
| "is_chunk v c = False"

fun is_error :: "json option \<Rightarrow> string \<Rightarrow> bool" where
  "is_error (Some (JObj kv)) m =
     (map_of kv ''type'' = Some (JStr ''error'') \<and> map_of kv ''message'' = Some (JStr m))"
| "is_error v m = False"

subsection \<open>The lines and blocks of the formatted documents\<close>

text \<open>
  An optional text is rendered when it is there and not empty; an optional
  enumerated value when it is there.
\<close>

definition finding_line :: "PhysicalExamFinding \<Rightarrow> string" where
  "finding_line f = ''- '' @ body_part f @ '': '' @ finding f @ nl"

definition exam_block :: "PhysicalExamFinding list \<Rightarrow> string" where
  "exam_block fs =
     (if fs = [] then []
      else nl @ ''Physical Examination:'' @ nl @ concat (map finding_line fs))"

definition icd_suffix :: "Assessment \<Rightarrow> string" where
  "icd_suffix a =
     (case icd_code a of
        None \<Rightarrow> []
      | Some c \<Rightarrow> if c = [] then [] else '' (ICD-10: '' @ c @ '')'')"

definition severity_suffix :: "Assessment \<Rightarrow> string" where
  "severity_suffix a =
     (case severity a of
        None \<Rightarrow> []
      | Some v \<Rightarrow> '' - Severity: '' @ severity_token v)"

definition assessment_line :: "nat \<Rightarrow> Assessment \<Rightarrow> string" where
  "assessment_line n a =
     show_nat n @ ''. '' @ diagnosis a @ icd_suffix a @ severity_suffix a @ nl"

definition assessment_block :: "Assessment list \<Rightarrow> string" where
  "assessment_block xs =
     nl @ ''Assessment:'' @ nl
       @ concat (map (\<lambda>(i, a). assessment_line (i + 1) a) (enumerate 0 xs))"

definition summary_head :: "ClinicalSummary \<Rightarrow> string" where
  "summary_head s =
     ''Patient: '' @ patient_name s @ nl @ ''Date: '' @ visit_date s @ nl @ nl
       @ ''Chief Complaint: '' @ chief_complaint s @ nl @ nl
       @ ''History of Present Illness:'' @ nl @ history_of_present_illness s @ nl
       @ (case vital_signs s of
            None \<Rightarrow> []
          | Some v \<Rightarrow> if v = [] then [] else nl @ ''Vital Signs:'' @ nl @ v @ nl)"

definition notes_block :: "ClinicalSummary \<Rightarrow> string" where
  "notes_block s =
     (case additional_notes s of
        None \<Rightarrow> []
      | Some v \<Rightarrow> if v = [] then [] else nl @ ''Additional Notes:'' @ nl @ v @ nl)"

definition timeline_suffix :: "NextStepAction \<Rightarrow> string" where
  "timeline_suffix a =
     (case timeline a of
        None \<Rightarrow> []
      | Some t \<Rightarrow> if t = [] then [] else '' (Timeline: '' @ t @ '')'')"

definition priority_suffix :: "NextStepAction \<Rightarrow> string" where
  "priority_suffix a =
     (case priority a of
        None \<Rightarrow> []
      | Some p \<Rightarrow> '' [Priority: '' @ priority_token p @ '']'')"

fun action_type_upper :: "ActionType \<Rightarrow> string" where
  "action_type_upper diagnostic = ''DIAGNOSTIC''"
| "action_type_upper treatment = ''TREATMENT''"
| "action_type_upper referral = ''REFERRAL''"
| "action_type_upper follow_up = ''FOLLOW-UP''"
| "action_type_upper education = ''EDUCATION''"

definition action_line :: "nat \<Rightarrow> NextStepAction \<Rightarrow> string" where
  "action_line n a =
     show_nat n @ ''. ['' @ action_type_upper (action_type a) @ ''] '' @ description a
       @ timeline_suffix a @ priority_suffix a @ nl"

definition actions_block :: "NextStepAction list \<Rightarrow> string" where
  "actions_block xs = concat (map (\<lambda>(i, a). action_line (i + 1) a) (enumerate 0 xs))"

definition follow_up_line :: "NextSteps \<Rightarrow> string" where
  "follow_up_line ns =
     (case follow_up_appointment ns of
        None \<Rightarrow> []
      | Some d \<Rightarrow> if d = [] then [] else nl @ ''Follow-up Appointment: '' @ d @ nl)"

definition red_flags_block :: "NextSteps \<Rightarrow> string" where
  "red_flags_block ns =
     (case red_flags ns of
        None \<Rightarrow> []
      | Some flags \<Rightarrow>
          if flags = [] then []
          else nl @ warning_sign @ '' Red Flags - Call immediately if:'' @ nl
                 @ concat (map (\<lambda>flag. ''- '' @ flag @ nl) flags))"

subsection \<open>The payload shape\<close>

text \<open>
  \<open>Complete{data}\<close>: a decoded message with the tag \<open>complete\<close> that carries the raw
  payload \<open>data\<close>.
\<close>

fun is_complete :: "json option \<Rightarrow> json \<Rightarrow> bool" where
  "is_complete (Some (JObj kv)) p =
     (map_of kv ''type'' = Some (JStr ''complete'') \<and> map_of kv ''data'' = Some p)"
| "is_complete v p = False"

text \<open>
  A value satisfies the shape a schema declares when every required field is there
  with the right primitive type, every enumerated field holds one of its tokens
  (compared as they are written), and every declared array is there, its elements
  satisfying the shape of the elements. An optional field may be absent or \<open>null\<close>.
  Keys the schema does not declare are not looked at.
\<close>

fun conforms :: "schema \<Rightarrow> json \<Rightarrow> bool"
  and field_conforms :: "schema \<Rightarrow> json option \<Rightarrow> bool"
  and shape_conforms :: "(string \<times> schema) list \<Rightarrow> (string \<times> json) list \<Rightarrow> bool"
  and items_conform :: "schema \<Rightarrow> json list \<Rightarrow> bool" where
  "conforms ZString (JStr s) = True"
| "conforms (ZEnum vals) (JStr s) = (s \<in> set vals)"
| "conforms (ZArray item) (JArr xs) = items_conform item xs"
| "conforms (ZObject shape) (JObj kv) = shape_conforms shape kv"
| "conforms (ZOptional s) v = conforms s v"
| "conforms (ZNullable s) JNull = True"
| "conforms (ZNullable s) v = conforms s v"
| "conforms s v = False"
| "field_conforms s None = accepts_undefined s"
| "field_conforms s (Some v) = conforms s v"
| "shape_conforms [] kv = True"
| "shape_conforms ((k, s) # shape) kv =
     (field_conforms s (map_of kv k) \<and> shape_conforms shape kv)"
| "items_conform item [] = True"
| "items_conform item (x # xs) = (conforms item x \<and> items_conform item xs)"

text \<open>
  A value carries an extra key when one of its objects, at the top or below a
  declared key or array, has a key its schema does not declare.
\<close>

fun has_extra_keys :: "schema \<Rightarrow> json \<Rightarrow> bool"
  and shape_has_extra :: "(string \<times> schema) list \<Rightarrow> (string \<times> json) list \<Rightarrow> bool"
  and items_have_extra :: "schema \<Rightarrow> json list \<Rightarrow> bool" where
  "has_extra_keys (ZObject shape) (JObj kv) =
     (list_ex (\<lambda>k. k \<notin> set (map fst shape)) (map fst kv) \<or> shape_has_extra shape kv)"
| "has_extra_keys (ZArray item) (JArr xs) = items_have_extra item xs"
| "has_extra_keys (ZOptional s) v = has_extra_keys s v"
| "has_extra_keys (ZNullable s) v = has_extra_keys s v"
| "has_extra_keys s v = False"
| "shape_has_extra [] kv = False"
| "shape_has_extra ((k, s) # shape) kv =
     ((case map_of kv k of None \<Rightarrow> False | Some v \<Rightarrow> has_extra_keys s v)
      \<or> shape_has_extra shape kv)"
| "items_have_extra item [] = False"
| "items_have_extra item (x # xs) = (has_extra_keys item x \<or> items_have_extra item xs)"

text \<open>
  Deep equality of two JSON values: scalars are equal, arrays have deep-equal elements
  at the same positions, and objects have the same keys with deep-equal values,
  whatever the order of the keys.
\<close>

fun deep_equal :: "json \<Rightarrow> json \<Rightarrow> bool"
  and entries_equal :: "(string \<times> json) list \<Rightarrow> (string \<times> json) list \<Rightarrow> bool"
  and items_equal :: "json list \<Rightarrow> json list \<Rightarrow> bool" where
  "deep_equal (JArr xs) b = (case b of JArr ys \<Rightarrow> items_equal xs ys | _ \<Rightarrow> False)"
| "deep_equal (JObj kv) b =
     (case b of
        JObj kv' \<Rightarrow> entries_equal kv kv' \<and> list_all (\<lambda>k. k \<in> set (map fst kv)) (map fst kv')
      | _ \<Rightarrow> False)"
| "deep_equal a b = (a = b)"
| "entries_equal [] kv' = True"
| "entries_equal ((k, v) # kv) kv' =
     ((case map_of kv' k of None \<Rightarrow> False | Some v' \<Rightarrow> deep_equal v v')
      \<and> entries_equal kv kv')"
| "items_equal [] ys = (ys = [])"
| "items_equal (x # xs) ys =
     (case ys of [] \<Rightarrow> False | y # ys' \<Rightarrow> deep_equal x y \<and> items_equal xs ys')"

subsection \<open>Violations\<close>

text \<open>
  A schema is well-formed when no object shape declares a key twice, as is the case
  for every shape written as an object literal.
\<close>

fun wf_schema :: "schema \<Rightarrow> bool"
  and wf_shape :: "(string \<times> schema) list \<Rightarrow> bool" where
  "wf_schema (ZObject shape) = (distinct (map fst shape) \<and> wf_shape shape)"
| "wf_schema (ZArray item) = wf_schema item"
| "wf_schema (ZOptional s) = wf_schema s"
| "wf_schema (ZNullable s) = wf_schema s"
| "wf_schema s = True"
| "wf_shape [] = True"
| "wf_shape ((k, s) # shape) = (wf_schema s \<and> wf_shape shape)"

text \<open>
  The schema under the \<open>optional\<close> and \<open>nullable\<close> wrappers, and whether a schema
  accepts \<open>null\<close>.
\<close>

fun core :: "schema \<Rightarrow> schema" where
  "core (ZOptional s) = core s"
| "core (ZNullable s) = core s"
| "core s = s"

fun accepts_null :: "schema \<Rightarrow> bool" where
  "accepts_null (ZNullable s) = True"
| "accepts_null (ZOptional s) = accepts_null s"
| "accepts_null s = False"

text \<open>
  The violation a value has against a schema at the value itself, if any: a required
  value that is missing and a value of the wrong primitive type are an
  \<open>invalid_type\<close>, a text that is none of the tokens of an enumeration is an
  \<open>invalid_enum_value\<close>. Then the violation at a path: the path is followed through
  the declared keys of objects and the elements of arrays, as long as the value has
  the object or array the schema expects there.
\<close>

fun type_violation :: "schema \<Rightarrow> json \<Rightarrow> issue_code option" where
  "type_violation ZString (JStr x) = None"
| "type_violation (ZEnum vals) (JStr x) =
     (if x \<in> set vals then None else Some invalid_enum_value)"
| "type_violation (ZArray item) (JArr xs) = None"
| "type_violation (ZObject shape) (JObj kv) = None"
| "type_violation s v = Some invalid_type"

fun node_violation :: "schema \<Rightarrow> json option \<Rightarrow> issue_code option" where
  "node_violation s None = (if accepts_undefined s then None else Some invalid_type)"
| "node_violation s (Some v) =
     (if v = JNull \<and> accepts_null s then None else type_violation (core s) v)"

fun violation_at :: "schema \<Rightarrow> json option \<Rightarrow> path \<Rightarrow> issue_code option" where
  "violation_at s v [] = node_violation s v"
| "violation_at s v (Key k # p) =
     (case (core s, v) of
        (ZObject shape, Some (JObj kv)) \<Rightarrow>
          (case map_of shape k of
             None \<Rightarrow> None
           | Some s' \<Rightarrow> violation_at s' (map_of kv k) p)
      | _ \<Rightarrow> None)"
| "violation_at s v (Index i # p) =
     (case (core s, v) of
        (ZArray item, Some (JArr xs)) \<Rightarrow>
          (if i < length xs then violation_at item (Some (xs ! i)) p else None)
      | _ \<Rightarrow> None)"

text \<open>
  The schema declared for a path, the value a payload holds at a path, and the issues
  a validation result reports (none when it succeeds).
\<close>

fun schema_at :: "schema \<Rightarrow> path \<Rightarrow> schema option" where
  "schema_at s [] = Some s"
| "schema_at s (Key k # p) =
     (case core s of
        ZObject shape \<Rightarrow> (case map_of shape k of None \<Rightarrow> None | Some s' \<Rightarrow> schema_at s' p)
      | _ \<Rightarrow> None)"
| "schema_at s (Index i # p) =
     (case core s of ZArray item \<Rightarrow> schema_at item p | _ \<Rightarrow> None)"

fun lookup :: "json \<Rightarrow> path \<Rightarrow> json option" where
  "lookup v [] = Some v"
| "lookup (JObj kv) (Key k # p) =
     (case map_of kv k of None \<Rightarrow> None | Some v \<Rightarrow> lookup v p)"
| "lookup (JArr xs) (Index i # p) = (if i < length xs then lookup (xs ! i) p else None)"
| "lookup v p = None"

definition issues_of :: "issue list + 'a \<Rightarrow> issue list" where
  "issues_of r = (case r of Inl es \<Rightarrow> es | Inr d \<Rightarrow> [])"

subsection \<open>Sample data\<close>

text \<open>
  The payload of the repository's schema test (\<open>valid ConsultationSummaryResponse
  passes\<close>), with the severity of its assessment and further top-level entries as
  parameters; the \<open>complete\<close> message that carries it, as \<open>JSON.stringify\<close> writes
  it, with the text of the further entries as parameter; and a table of messages
  with the values \<open>JSON.parse\<close> returns for them. \<open>sample_parse\<close> agrees with
  \<open>JSON.parse\<close> on the messages of the table and on \<open>not json\<close>, the only texts
  it is applied to.
\<close>

definition sample_payload :: "json \<Rightarrow> (string \<times> json) list \<Rightarrow> json" where
  "sample_payload sev extra = JObj
     ([(''clinical_summary'', JObj
          [(''patient_name'', JStr ''DARIN JESSIE WILLIAMS''),
           (''visit_date'', JStr ''2025-11-15''),
           (''chief_complaint'', JStr ''Headache''),
           (''history_of_present_illness'', JStr ''Patient reports headache.''),
           (''vital_signs'', JNull),
           (''physical_exam_findings'', JArr
              [JObj [(''body_part'', JStr ''Head''), (''finding'', JStr ''Tenderness'')]]),
           (''assessments'', JArr
              [JObj [(''diagnosis'', JStr ''Tension headache''),
                     (''icd_code'', JStr ''G44.2''),
                     (''severity'', sev)]]),
           (''additional_notes'', JStr ''Recommend acetaminophen.'')]),
       (''next_steps'', JObj
          [(''actions'', JArr
              [JObj [(''action_type'', JStr ''treatment''),
                     (''description'', JStr ''Take acetaminophen''),
                     (''priority'', JStr ''high''),
                     (''timeline'', JStr ''As needed'')]]),
           (''follow_up_appointment'', JStr ''2025-11-20''),
           (''red_flags'', JArr [JStr ''Severe headache'', JStr ''Vision changes''])]),
       (''patient_email'', JObj
          [(''greeting'', JStr ''Hello Darin,''),
           (''summary_of_findings'', JStr ''Signs of tension headache''),
           (''treatment_plan'', JStr ''Use acetaminophen as needed''),
           (''patient_instructions'', JArr
              [JObj [(''instruction'', JStr ''Take acetaminophen when headache occurs''),
                     (''category'', JStr ''medication'')]]),
           (''warning_signs'', JArr [JStr ''Sudden severe headache'']),
           (''next_steps_timeline'', JStr ''Follow up in 5 days''),
           (''closing'', JStr ''Best regards,''),
           (''physician_signature'', JStr ''Dr. Smith'')]),
       (''generation_timestamp'', JStr ''2025-11-15T12:00:00Z'')] @ extra)"

definition sample_message :: "string \<Rightarrow> string" where
  \<open>sample_message extra =
     ''{"type":"complete","data":{"clinical_summary":{"patient_name":"D''
       @ ''ARIN JESSIE WILLIAMS","visit_date":"2025-11-15","chief_complaint''
       @ ''":"Headache","history_of_present_illness":"Patient reports heada''
       @ ''che.","vital_signs":null,"physical_exam_findings":[{"body_part":''
       @ ''"Head","finding":"Tenderness"}],"assessments":[{"diagnosis":"Ten''
       @ ''sion headache","icd_code":"G44.2","severity":"mild"}],"additiona''
       @ ''l_notes":"Recommend acetaminophen."},"next_steps":{"actions":[{"''
       @ ''action_type":"treatment","description":"Take acetaminophen","pri''
       @ ''ority":"high","timeline":"As needed"}],"follow_up_appointment":"''
       @ ''2025-11-20","red_flags":["Severe headache","Vision changes"]},"p''
       @ ''atient_email":{"greeting":"Hello Darin,","summary_of_findings":"''
       @ ''Signs of tension headache","treatment_plan":"Use acetaminophen a''
       @ ''s needed","patient_instructions":[{"instruction":"Take acetamino''
       @ ''phen when headache occurs","category":"medication"}],"warning_si''
       @ ''gns":["Sudden severe headache"],"next_steps_timeline":"Follow up''
       @ '' in 5 days","closing":"Best regards,","physician_signature":"Dr.''
       @ '' Smith"},"generation_timestamp":"2025-11-15T12:00:00Z"''
       @ extra @ ''}}''\<close>

definition sample_messages :: "(string \<times> json) list" where
  \<open>sample_messages =
     [(''{"type":"chunk","content":"Hel"}'',
         JObj [(''type'', JStr ''chunk''), (''content'', JStr ''Hel'')]),
      (''{"type":"chunk","content":"lo"}'',
         JObj [(''type'', JStr ''chunk''), (''content'', JStr ''lo'')]),
      (''{"type":"chunk","content":"H"}'',
         JObj [(''type'', JStr ''chunk''), (''content'', JStr ''H'')]),
      (''{"type":"chunk","content":"ello"}'',
         JObj [(''type'', JStr ''chunk''), (''content'', JStr ''ello'')]),
      (''{"type":"error","message":"Something went wrong"}'',
         JObj [(''type'', JStr ''error''), (''message'', JStr ''Something went wrong'')]),
      (''{"type":"ping"}'',
         JObj [(''type'', JStr ''ping'')]),
      (''null'', JNull),
      (sample_message [],
         JObj [(''type'', JStr ''complete''), (''data'', sample_payload (JStr ''mild'') [])]),
      (sample_message '',"debug":true'',
         JObj [(''type'', JStr ''complete''),
               (''data'', sample_payload (JStr ''mild'') [(''debug'', JBool True)])])]\<close>

definition sample_parse :: "string \<Rightarrow> json option" where
  "sample_parse data = map_of sample_messages data"

text \<open>A session that is streaming: loading, with nothing received yet.\<close>

definition streaming :: session where
  "streaming = \<lparr>output_text = [], loading = True, structuredOutput = None, buffer = [],
     alerts = [], console = [], requests = [], aborted = False\<rparr>"

section \<open>Properties of the formatters\<close>

lemma forEach_from_append:
  assumes "\<And>x j out. f x j out = out @ g j x"
  shows "forEach_from i f xs out = out @ concat (map (\<lambda>(j, x). g j x) (enumerate i xs))"
  using assms by (induction xs arbitrary: i out) simp_all

lemma forEach_append:
  assumes "\<And>x j out. f x j out = out @ g j x"
  shows "forEach f xs out = out @ concat (map (\<lambda>(j, x). g j x) (enumerate 0 xs))"
  unfolding forEach_def using assms by (rule forEach_from_append)

lemma map_enumerate_ignore_index: "map (\<lambda>(j, x). g x) (enumerate i xs) = map g xs"
  by (induction xs arbitrary: i) simp_all

lemma finding_step_line: "finding_step f i out = out @ finding_line f"
  by (simp add: finding_step_def finding_line_def)

lemma assessment_step_line: "assessment_step a i out = out @ assessment_line (i + 1) a"
  by (cases "icd_code a"; cases "severity a")
     (simp_all add: assessment_step_def assessment_line_def icd_suffix_def
        severity_suffix_def Let_def)

lemma forEach_finding_step:
  "forEach finding_step xs out = out @ concat (map finding_line xs)"
  using forEach_append [of finding_step "\<lambda>j. finding_line" xs out]
  by (simp add: finding_step_line map_enumerate_ignore_index)

lemma forEach_assessment_step:
  "forEach assessment_step xs out
     = out @ concat (map (\<lambda>(i, a). assessment_line (i + 1) a) (enumerate 0 xs))"
  using forEach_append [of assessment_step "\<lambda>j. assessment_line (j + 1)" xs out]
  by (simp add: assessment_step_line)

text \<open>
  C8. The clinical summary document is the head (patient, date, complaint, history
  and the vital signs when given), then the physical-examination block, which is
  empty when there is no finding and otherwise has its header and one line
  \<open>- {body_part}: {finding}\<close> per finding, then the assessment block, always there,
  with its header and one line \<open>{n}. {diagnosis}\<close> per assessment numbered from 1,
  the ICD-10 suffix before the severity suffix, then the additional notes when given.
\<close>

theorem formatClinicalSummary_blocks:
  "formatClinicalSummary s =
     summary_head s @ exam_block (physical_exam_findings s)
       @ assessment_block (assessments s) @ notes_block s"
  by (cases "vital_signs s"; cases "additional_notes s")
     (simp_all add: formatClinicalSummary_def Let_def forEach_finding_step
        forEach_assessment_step summary_head_def exam_block_def assessment_block_def
        notes_block_def)

lemma toUpperCase_tokens:
  "toUpperCase ''diagnostic'' = ''DIAGNOSTIC''"
  "toUpperCase ''treatment'' = ''TREATMENT''"
  "toUpperCase ''referral'' = ''REFERRAL''"
  "toUpperCase ''follow-up'' = ''FOLLOW-UP''"
  "toUpperCase ''education'' = ''EDUCATION''"
  by code_simp+

lemma toUpperCase_token: "toUpperCase (action_type_token t) = action_type_upper t"
  by (cases t) (simp_all add: toUpperCase_tokens)

lemma action_step_line: "action_step a i out = out @ action_line (i + 1) a"
  by (cases "timeline a"; cases "priority a")
     (simp_all add: action_step_def action_line_def timeline_suffix_def priority_suffix_def
        toUpperCase_token Let_def)

lemma forEach_action_step: "forEach action_step xs out = out @ actions_block xs"
  using forEach_append [of action_step "\<lambda>j. action_line (j + 1)" xs out]
  by (simp add: action_step_line actions_block_def)

lemma forEach_flag_step:
  "forEach flag_step xs out = out @ concat (map (\<lambda>flag. ''- '' @ flag @ nl) xs)"
  using forEach_append [of flag_step "\<lambda>j flag. ''- '' @ flag @ nl" xs out]
  by (simp add: flag_step_def map_enumerate_ignore_index)

text \<open>
  C9. The next-steps document is one line per action, numbered from 1, of the form
  \<open>{n}. [{ACTION_TYPE_UPPERCASE}] {description}\<close> with the timeline suffix before
  the priority suffix, then the follow-up-appointment line, there only when the
  field is given (and not empty), then the red-flags block, there only when the list
  is given and not empty: its header and one line \<open>- {flag}\<close> per flag.
\<close>

theorem formatNextSteps_blocks:
  "formatNextSteps ns = actions_block (actions ns) @ follow_up_line ns @ red_flags_block ns"
  by (cases "follow_up_appointment ns"; cases "red_flags ns")
     (simp_all add: formatNextSteps_def Let_def forEach_action_step forEach_flag_step
        follow_up_line_def red_flags_block_def)

text \<open>The two documents of the specification's examples, in full.\<close>

lemma formatClinicalSummary_example:
  "formatClinicalSummary \<lparr>patient_name = ''John Doe'', visit_date = ''2025-11-15'',
  chief_complaint = ''Headache'', history_of_present_illness = ''Patient reports headache.'',
  vital_signs = Some ''BP 120/80'',
  physical_exam_findings = [\<lparr>body_part = ''Head'', finding = ''Tenderness''\<rparr>],
  assessments = [\<lparr>diagnosis = ''Tension headache'', icd_code = Some ''G44.2'', severity = Some mild\<rparr>],
  additional_notes = Some ''Recommend acetaminophen.''\<rparr>
  = ''Patient: John Doe'' @ nl @ ''Date: 2025-11-15'' @ nl @ nl @ ''Chief Complaint: Headache'' @ nl @ nl
    @ ''History of Present Illness:'' @ nl @ ''Patient reports headache.'' @ nl @ nl
    @ ''Vital Signs:'' @ nl @ ''BP 120/80'' @ nl @ nl
    @ ''Physical Examination:'' @ nl @ ''- Head: Tenderness'' @ nl @ nl
    @ ''Assessment:'' @ nl @ ''1. Tension headache (ICD-10: G44.2) - Severity: mild'' @ nl @ nl
    @ ''Additional Notes:'' @ nl @ ''Recommend acetaminophen.'' @ nl"
  by code_simp

lemma formatNextSteps_example:
  "formatNextSteps \<lparr>actions = [\<lparr>action_type = treatment, description = ''Take acetaminophen'', priority = Some high, timeline = Some ''As needed''\<rparr>],
   follow_up_appointment = Some ''2025-11-20'', red_flags = Some [''Severe headache'', ''Vision changes'']\<rparr>
  = ''1. [TREATMENT] Take acetaminophen (Timeline: As needed) [Priority: high]'' @ nl @ nl
    @ ''Follow-up Appointment: 2025-11-20'' @ nl @ nl
    @ warning_sign @ '' Red Flags - Call immediately if:'' @ nl
    @ ''- Severe headache'' @ nl @ ''- Vision changes'' @ nl"
  by code_simp

section \<open>Properties of the streaming session\<close>

lemma sample_parse_values:
  \<open>sample_parse ''{"type":"chunk","content":"Hel"}''
     = Some (JObj [(''type'', JStr ''chunk''), (''content'', JStr ''Hel'')])\<close>
  \<open>sample_parse ''{"type":"chunk","content":"lo"}''
     = Some (JObj [(''type'', JStr ''chunk''), (''content'', JStr ''lo'')])\<close>
  \<open>sample_parse ''{"type":"chunk","content":"H"}''
     = Some (JObj [(''type'', JStr ''chunk''), (''content'', JStr ''H'')])\<close>
  \<open>sample_parse ''{"type":"chunk","content":"ello"}''
     = Some (JObj [(''type'', JStr ''chunk''), (''content'', JStr ''ello'')])\<close>
  \<open>sample_parse ''{"type":"error","message":"Something went wrong"}''
     = Some (JObj [(''type'', JStr ''error''), (''message'', JStr ''Something went wrong'')])\<close>
  \<open>sample_parse ''{"type":"ping"}'' = Some (JObj [(''type'', JStr ''ping'')])\<close>
  \<open>sample_parse ''null'' = Some JNull\<close>
  \<open>sample_parse ''not json'' = None\<close>
  \<open>sample_parse (sample_message [])
     = Some (JObj [(''type'', JStr ''complete''), (''data'', sample_payload (JStr ''mild'') [])])\<close>
  \<open>sample_parse (sample_message '',"debug":true'')
     = Some (JObj [(''type'', JStr ''complete''),
                   (''data'', sample_payload (JStr ''mild'') [(''debug'', JBool True)])])\<close>
  by (simp_all add: sample_parse_def sample_messages_def sample_message_def)

lemma get_prop_type: "get_prop parsed ''type'' = Inr ty \<Longrightarrow> ty = envelope_type parsed"
  by (cases parsed) auto

text \<open>
  C4. A message whose data is not JSON, or whose decoded \<open>type\<close> is none of
  \<open>chunk\<close>, \<open>complete\<close> and \<open>error\<close>, does not make the handler raise: it returns a
  state, in which the buffer, the structured output, the loading flag, the output
  text, the alerts, the requests and the abort flag are those of before. Only the
  console has grown.
\<close>

theorem unknown_message_ignored:
  assumes "is_unknown (JSON_parse d)"
  shows "\<exists>s'. onmessage JSON_parse s d = Inr s'
           \<and> buffer s' = buffer s \<and> structuredOutput s' = structuredOutput s
           \<and> loading s' = loading s \<and> output_text s' = output_text s
           \<and> alerts s' = alerts s \<and> requests s' = requests s \<and> aborted s' = aborted s"
proof (cases "JSON_parse d")
  case None
  then show ?thesis by (simp add: onmessage_def onmessage_try_def)
next
  case (Some parsed)
  show ?thesis
  proof (cases "get_prop parsed ''type''")
    case (Inl e)
    with Some show ?thesis by (simp add: onmessage_def onmessage_try_def)
  next
    case (Inr ty)
    with assms Some have "ty \<noteq> Some (JStr ''chunk'')" "ty \<noteq> Some (JStr ''complete'')"
      "ty \<noteq> Some (JStr ''error'')"
      using get_prop_type [OF Inr] by auto
    with Some Inr show ?thesis by (simp add: onmessage_def onmessage_try_def)
  qed
qed

theorem unknown_message_ignored_witness:
  \<open>is_unknown (sample_parse ''{"type":"ping"}'')
   \<and> (\<exists>s'. onmessage sample_parse (streaming\<lparr>buffer := ''Hel''\<rparr>) ''{"type":"ping"}'' = Inr s'
          \<and> buffer s' = ''Hel'' \<and> structuredOutput s' = None \<and> loading s')
   \<and> is_unknown (sample_parse ''not json'')
   \<and> (\<exists>s'. onmessage sample_parse (streaming\<lparr>buffer := ''Hel''\<rparr>) ''not json'' = Inr s'
          \<and> buffer s' = ''Hel'' \<and> structuredOutput s' = None \<and> loading s')
   \<and> is_unknown (sample_parse ''null'')
   \<and> (\<exists>s'. onmessage sample_parse (streaming\<lparr>buffer := ''Hel''\<rparr>) ''null'' = Inr s'
          \<and> buffer s' = ''Hel'' \<and> structuredOutput s' = None \<and> loading s')\<close>
proof -
  have a: \<open>is_unknown (sample_parse ''{"type":"ping"}'')\<close>
    and b: \<open>is_unknown (sample_parse ''not json'')\<close>
    and c: \<open>is_unknown (sample_parse ''null'')\<close>
    by (simp_all add: sample_parse_values)
  show ?thesis
    using a b c
      unknown_message_ignored [of sample_parse \<open>''{"type":"ping"}''\<close>
        "streaming\<lparr>buffer := ''Hel''\<rparr>"]
      unknown_message_ignored [of sample_parse \<open>''not json''\<close>
        "streaming\<lparr>buffer := ''Hel''\<rparr>"]
      unknown_message_ignored [of sample_parse \<open>''null''\<close>
        "streaming\<lparr>buffer := ''Hel''\<rparr>"]
    by (auto simp: streaming_def)
qed

lemma onmessage_chunk:
  assumes "is_chunk (JSON_parse d) c"
  shows "onmessage JSON_parse s d = Inr (s\<lparr>buffer := buffer s @ c\<rparr>)"
proof -
  from assms obtain kv where "JSON_parse d = Some (JObj kv)"
    "map_of kv ''type'' = Some (JStr ''chunk'')" "map_of kv ''content'' = Some (JStr c)"
    by (cases "(JSON_parse d, c)" rule: is_chunk.cases) auto
  then show ?thesis by (simp add: onmessage_def onmessage_try_def)
qed

text \<open>
  C5. Delivering a sequence of \<open>chunk\<close> messages appends the concatenation of their
  contents, in arrival order, to the buffer and changes nothing else. The buffer of a
  session therefore depends on the concatenated text only, not on where it was cut
  into chunks.
\<close>

theorem chunks_accumulate:
  assumes "list_all2 (\<lambda>d c. is_chunk (JSON_parse d) c) ds cs"
  shows "deliver JSON_parse s ds = Inr (s\<lparr>buffer := buffer s @ concat cs\<rparr>)"
  using assms
proof (induction ds cs arbitrary: s rule: list_all2_induct)
  case Nil
  show ?case by simp
next
  case (Cons d ds c cs)
  from Cons.hyps(1) have "onmessage JSON_parse s d = Inr (s\<lparr>buffer := buffer s @ c\<rparr>)"
    by (rule onmessage_chunk [of JSON_parse d c s])
  then show ?case by (simp add: Cons.IH)
qed

theorem chunks_accumulate_witness:
  \<open>list_all2 (\<lambda>d c. is_chunk (sample_parse d) c)
     [''{"type":"chunk","content":"Hel"}'', ''{"type":"chunk","content":"lo"}'']
     [''Hel'', ''lo'']
   \<and> list_all2 (\<lambda>d c. is_chunk (sample_parse d) c)
     [''{"type":"chunk","content":"H"}'', ''{"type":"chunk","content":"ello"}'']
     [''H'', ''ello'']
   \<and> deliver sample_parse streaming
        [''{"type":"chunk","content":"Hel"}'', ''{"type":"chunk","content":"lo"}'']
       = Inr (streaming\<lparr>buffer := ''Hello''\<rparr>)
   \<and> deliver sample_parse streaming
        [''{"type":"chunk","content":"H"}'', ''{"type":"chunk","content":"ello"}'']
       = Inr (streaming\<lparr>buffer := ''Hello''\<rparr>)\<close>
proof -
  have a: \<open>list_all2 (\<lambda>d c. is_chunk (sample_parse d) c)
      [''{"type":"chunk","content":"Hel"}'', ''{"type":"chunk","content":"lo"}'']
      [''Hel'', ''lo'']\<close>
    and b: \<open>list_all2 (\<lambda>d c. is_chunk (sample_parse d) c)
      [''{"type":"chunk","content":"H"}'', ''{"type":"chunk","content":"ello"}'']
      [''H'', ''ello'']\<close>
    by (simp_all add: sample_parse_values)
  show ?thesis
    using a b
      chunks_accumulate [of sample_parse
        \<open>[''{"type":"chunk","content":"Hel"}'', ''{"type":"chunk","content":"lo"}'']\<close>
        \<open>[''Hel'', ''lo'']\<close> streaming]
      chunks_accumulate [of sample_parse
        \<open>[''{"type":"chunk","content":"H"}'', ''{"type":"chunk","content":"ello"}'']\<close>
        \<open>[''H'', ''ello'']\<close> streaming]
    by (simp add: streaming_def)
qed

text \<open>
  C6. On an \<open>error\<close> message with the text \<open>m\<close> the handler clears the loading flag
  and shows the alert \<open>Error: m\<close>, the text \<open>m\<close> unchanged; the structured output is
  left as it was.
\<close>

theorem error_envelope_fails:
  assumes "is_error (JSON_parse d) m"
  shows "onmessage JSON_parse s d =
     Inr (s\<lparr>console := console s @ [ConsoleError ''Backend error:''],
            alerts := alerts s @ [''Error: '' @ m],
            loading := False\<rparr>)"
proof -
  from assms obtain kv where "JSON_parse d = Some (JObj kv)"
    "map_of kv ''type'' = Some (JStr ''error'')" "map_of kv ''message'' = Some (JStr m)"
    by (cases "(JSON_parse d, m)" rule: is_error.cases) auto
  then show ?thesis by (simp add: onmessage_def onmessage_try_def)
qed

theorem error_envelope_fails_witness:
  \<open>is_error (sample_parse ''{"type":"error","message":"Something went wrong"}'')
     ''Something went wrong''
   \<and> onmessage sample_parse streaming ''{"type":"error","message":"Something went wrong"}''
       = Inr (streaming\<lparr>console := [ConsoleError ''Backend error:''],
                         alerts := [''Error: Something went wrong''],
                         loading := False\<rparr>)\<close>
proof -
  have a: \<open>is_error (sample_parse ''{"type":"error","message":"Something went wrong"}'')
      ''Something went wrong''\<close>
    by (simp add: sample_parse_values)
  show ?thesis
    using a
      error_envelope_fails [of sample_parse
        \<open>''{"type":"error","message":"Something went wrong"}''\<close>
        \<open>''Something went wrong''\<close> streaming]
    by (simp add: streaming_def)
qed

text \<open>
  C7. Without a token (\<open>getToken()\<close> resolved to \<open>null\<close>) \<open>handleSubmit\<close> ends with
  the output \<open>Authentication required\<close> and the loading flag cleared, and hands no
  request to \<open>fetchEventSource\<close>. An empty token is treated the same.
\<close>

theorem no_token_no_connection:
  "handleSubmit None f s = s\<lparr>output_text := ''Authentication required'', loading := False\<rparr>
   \<and> requests (handleSubmit None f s) = requests s
   \<and> handleSubmit (Some []) f s = handleSubmit None f s"
  by (simp add: handleSubmit_def)

section \<open>Properties of the validator\<close>

subsection \<open>The issues reported are the violations\<close>

text \<open>
  The issues of an object are the issues of all its declared keys, in the order of
  the shape, and the issues of an array are those of all its elements: nothing stops
  at the first one.
\<close>

lemma issues_of_simps [simp]: "issues_of (Inl es) = es" "issues_of (Inr d) = []"
  by (simp_all add: issues_of_def)

lemma issues_of_map_sum [simp]: "issues_of (map_sum id f r) = issues_of r"
  by (cases r) simp_all

lemma issues_of_merge_field:
  "issues_of (merge_field k r rs) = map (under (Key k)) (issues_of r) @ issues_of rs"
  by (cases "(k, r, rs)" rule: merge_field.cases) simp_all

lemma issues_of_merge_item:
  "issues_of (merge_item i r rs) = map (under (Index i)) (issues_of r) @ issues_of rs"
  by (cases "(i, r, rs)" rule: merge_item.cases) simp_all

lemma issues_of_parse_shape:
  "issues_of (parse_shape shape kv) =
     concat (map (\<lambda>(k, s). map (under (Key k)) (issues_of (parse_field s (map_of kv k)))) shape)"
  by (induction shape) (auto simp: issues_of_merge_field)

lemma issues_of_parse_items:
  "issues_of (parse_items item i xs) =
     concat (map (\<lambda>(j, x). map (under (Index j)) (issues_of (parse item x))) (enumerate i xs))"
  by (induction xs arbitrary: i) (auto simp: issues_of_merge_item)

lemma path_cases:
  obtains "p = []" | k p' where "p = Key k # p'" | i p' where "p = Index i # p'"
  by (cases p) (auto intro: path_elem.exhaust)

lemma under_in_image [simp]:
  "((e # p, c) \<in> under e' ` A) = (e = e' \<and> (p, c) \<in> A)"
  "([], c) \<notin> under e' ` A"
  by (force simp: image_iff)+

lemma violation_at_ZOptional [simp]:
  "violation_at (ZOptional s) (Some v) p = violation_at s (Some v) p"
  by (cases p rule: path_cases) simp_all

lemma violation_at_ZNullable:
  "violation_at (ZNullable s) (Some v) p = (if v = JNull then None else violation_at s (Some v) p)"
  by (cases p rule: path_cases) (auto split: schema.splits)

lemma field_issues_iff:
  assumes "\<And>v p c. ((p, c) \<in> set (issues_of (parse s v))) = (violation_at s (Some v) p = Some c)"
  shows "((p, c) \<in> set (issues_of (parse_field s vo))) = (violation_at s vo p = Some c)"
proof (cases vo)
  case None
  then show ?thesis
    by (cases p rule: path_cases) (auto split: schema.splits)
next
  case (Some v)
  then show ?thesis by (simp add: assms)
qed

lemma shape_issues_iff:
  assumes "distinct (map fst shape)"
    and "\<And>k s vo p c. (k, s) \<in> set shape \<Longrightarrow>
           ((p, c) \<in> set (issues_of (parse_field s vo))) = (violation_at s vo p = Some c)"
  shows "((q, c) \<in> set (issues_of (parse_shape shape kv))) =
     (\<exists>k p s. q = Key k # p \<and> map_of shape k = Some s \<and> violation_at s (map_of kv k) p = Some c)"
proof -
  have "((q, c) \<in> set (issues_of (parse_shape shape kv))) =
      (\<exists>k p s. q = Key k # p \<and> (k, s) \<in> set shape
         \<and> (p, c) \<in> set (issues_of (parse_field s (map_of kv k))))"
    by (cases q rule: path_cases) (force simp: issues_of_parse_shape)+
  also have "\<dots> = (\<exists>k p s. q = Key k # p \<and> map_of shape k = Some s
         \<and> violation_at s (map_of kv k) p = Some c)"
  proof -
    have a: "\<And>k s p. (k, s) \<in> set shape \<Longrightarrow>
        ((p, c) \<in> set (issues_of (parse_field s (map_of kv k))))
          = (violation_at s (map_of kv k) p = Some c)"
      using assms(2) by blast
    have b: "\<And>k s. (map_of shape k = Some s) = ((k, s) \<in> set shape)"
      using assms(1) by simp
    show ?thesis unfolding b using a by blast
  qed
  finally show ?thesis .
qed

lemma items_issues_iff:
  assumes "\<And>v p c. ((p, c) \<in> set (issues_of (parse item v))) = (violation_at item (Some v) p = Some c)"
  shows "((q, c) \<in> set (issues_of (parse_items item 0 xs))) =
     (\<exists>i p. q = Index i # p \<and> i < length xs \<and> violation_at item (Some (xs ! i)) p = Some c)"
  using assms
  by (cases q rule: path_cases) (auto simp: issues_of_parse_items in_set_enumerate_eq)

lemma wf_shape_member: "wf_shape shape \<Longrightarrow> (k, s) \<in> set shape \<Longrightarrow> wf_schema s"
  by (induction shape) auto

lemma array_issues_iff:
  assumes ih: "\<And>v p c. ((p, c) \<in> set (issues_of (parse item v)))
      = (violation_at item (Some v) p = Some c)"
  shows "((p, c) \<in> set (issues_of (parse (ZArray item) v)))
      = (violation_at (ZArray item) (Some v) p = Some c)"
proof (cases v)
  case (JArr xs)
  show ?thesis
    unfolding JArr using items_issues_iff [of item p c xs, OF ih]
    by (cases p rule: path_cases) simp_all
qed (cases p rule: path_cases; auto)+

lemma object_issues_iff:
  assumes d: "distinct (map fst shape)"
    and ih: "\<And>k s vo p c. (k, s) \<in> set shape \<Longrightarrow>
           ((p, c) \<in> set (issues_of (parse_field s vo))) = (violation_at s vo p = Some c)"
  shows "((p, c) \<in> set (issues_of (parse (ZObject shape) v)))
      = (violation_at (ZObject shape) (Some v) p = Some c)"
proof (cases v)
  case (JObj kv)
  show ?thesis
    unfolding JObj using shape_issues_iff [of shape p c kv, OF d ih]
    by (cases p rule: path_cases) (simp_all split: option.splits)
qed (cases p rule: path_cases; auto)+

lemma parse_issues_iff:
  "wf_schema s \<Longrightarrow>
   ((p, c) \<in> set (issues_of (parse s v))) = (violation_at s (Some v) p = Some c)"
proof (induction s arbitrary: p c v)
  case ZString
  show ?case
    by (cases p rule: path_cases; cases v) auto
next
  case (ZEnum vals)
  show ?case
    by (cases p rule: path_cases; cases v) auto
next
  case (ZArray item)
  show ?case
    by (rule array_issues_iff) (use ZArray in simp)
next
  case (ZObject shape)
  have d: "distinct (map fst shape)" and wf: "wf_shape shape"
    using ZObject.prems by simp_all
  have ih: "((p, c) \<in> set (issues_of (parse_field s vo))) = (violation_at s vo p = Some c)"
    if "(k, s) \<in> set shape" for k s vo p c
  proof (rule field_issues_iff)
    fix v p c
    have "wf_schema s" using wf that by (rule wf_shape_member)
    then show "((p, c) \<in> set (issues_of (parse s v))) = (violation_at s (Some v) p = Some c)"
      using ZObject.IH [of "(k, s)" s] that by simp
  qed
  show ?case
    using d ih by (rule object_issues_iff)
next
  case (ZOptional s)
  then show ?case by simp
next
  case (ZNullable s)
  then show ?case
    by (cases v) (simp_all add: violation_at_ZNullable)
qed

lemma parse_field_issues_iff:
  "wf_schema s \<Longrightarrow>
   ((p, c) \<in> set (issues_of (parse_field s vo))) = (violation_at s vo p = Some c)"
  by (rule field_issues_iff) (rule parse_issues_iff)

subsection \<open>A failed validation reports an issue\<close>

lemma isl_merge_field [simp]: "isl (merge_field k r rs) = (isl r \<or> isl rs)"
  by (cases "(k, r, rs)" rule: merge_field.cases) simp_all

lemma isl_merge_item [simp]: "isl (merge_item i r rs) = (isl r \<or> isl rs)"
  by (cases "(i, r, rs)" rule: merge_item.cases) simp_all

lemma shape_failure_nonempty:
  assumes "\<And>k s vo. (k, s) \<in> set shape \<Longrightarrow> isl (parse_field s vo) \<Longrightarrow>
             issues_of (parse_field s vo) \<noteq> []"
  shows "isl (parse_shape shape kv) \<Longrightarrow> issues_of (parse_shape shape kv) \<noteq> []"
  using assms
proof (induction shape)
  case Nil
  then show ?case by simp
next
  case (Cons a shape)
  obtain k s where a: "a = (k, s)" by (cases a)
  from Cons show ?case
    unfolding a by (auto simp: issues_of_merge_field)
qed

lemma items_failure_nonempty:
  assumes "\<And>x. isl (parse item x) \<Longrightarrow> issues_of (parse item x) \<noteq> []"
  shows "isl (parse_items item i xs) \<Longrightarrow> issues_of (parse_items item i xs) \<noteq> []"
  using assms
  by (induction xs arbitrary: i) (auto simp: issues_of_merge_item)

lemma field_failure_nonempty:
  assumes "\<And>x. isl (parse s x) \<Longrightarrow> issues_of (parse s x) \<noteq> []"
  shows "isl (parse_field s vo) \<Longrightarrow> issues_of (parse_field s vo) \<noteq> []"
  using assms by (cases vo) (auto simp: isl_map_sum split: if_splits)

lemma parse_failure_nonempty:
  "isl (parse s v) \<Longrightarrow> issues_of (parse s v) \<noteq> []"
proof (induction s arbitrary: v)
  case ZString
  then show ?case by (cases v) simp_all
next
  case (ZEnum vals)
  then show ?case by (cases v) (simp_all split: if_splits)
next
  case (ZArray item)
  then show ?case
    by (cases v) (simp_all add: isl_map_sum items_failure_nonempty)
next
  case (ZObject shape)
  have "issues_of (parse_field s vo) \<noteq> []"
    if "(k, s) \<in> set shape" "isl (parse_field s vo)" for k s vo
    using that(2)
  proof (rule field_failure_nonempty [rotated])
    fix x assume "isl (parse s x)"
    then show "issues_of (parse s x) \<noteq> []"
      using ZObject.IH [of "(k, s)" s x] that(1) by simp
  qed
  with ZObject.prems show ?case
    by (cases v) (simp_all add: isl_map_sum shape_failure_nonempty)
next
  case (ZOptional s)
  then show ?case by simp
next
  case (ZNullable s)
  then show ?case by (cases v) simp_all
qed

lemma parse_field_failure_nonempty:
  "isl (parse_field s vo) \<Longrightarrow> issues_of (parse_field s vo) \<noteq> []"
  by (rule field_failure_nonempty) (rule parse_failure_nonempty)

subsection \<open>No issue is reported twice\<close>

lemma inj_under: "inj (under e)"
  by (auto simp: inj_on_def)

lemma distinct_map_under: "distinct (map (under e) xs) = distinct xs"
  by (simp add: distinct_map inj_under [THEN inj_on_subset])

lemma shape_issue_key:
  "q \<in> set (issues_of (parse_shape shape kv)) \<Longrightarrow>
     \<exists>k p c s. q = (Key k # p, c) \<and> (k, s) \<in> set shape"
proof (induction shape)
  case Nil
  then show ?case by simp
next
  case (Cons a shape)
  obtain k s where a: "a = (k, s)" by (cases a)
  from Cons show ?case
    unfolding a by (fastforce simp: issues_of_merge_field)
qed

lemma items_issue_index:
  "q \<in> set (issues_of (parse_items item i xs)) \<Longrightarrow> \<exists>j p c. q = (Index j # p, c) \<and> i \<le> j"
proof (induction xs arbitrary: i)
  case Nil
  then show ?case by simp
next
  case (Cons x xs)
  then show ?case
    by (fastforce simp: issues_of_merge_item)
qed

lemma shape_issues_distinct:
  assumes "distinct (map fst shape)"
    and "\<And>k s vo. (k, s) \<in> set shape \<Longrightarrow> distinct (issues_of (parse_field s vo))"
  shows "distinct (issues_of (parse_shape shape kv))"
  using assms
proof (induction shape)
  case Nil
  then show ?case by simp
next
  case (Cons a shape)
  obtain k s where a: "a = (k, s)" by (cases a)
  have "set (map (under (Key k)) (issues_of (parse_field s (map_of kv k))))
      \<inter> set (issues_of (parse_shape shape kv)) = {}"
    using Cons.prems(1) unfolding a by (force dest!: shape_issue_key)
  moreover have "distinct (issues_of (parse_field s (map_of kv k)))"
    using Cons.prems(2) [of k s] unfolding a by simp
  moreover have "distinct (issues_of (parse_shape shape kv))"
  proof (rule Cons.IH)
    show "distinct (map fst shape)" using Cons.prems(1) by simp
    show "distinct (issues_of (parse_field s' vo))" if "(k', s') \<in> set shape" for k' s' vo
      using Cons.prems(2) [of k' s'] that by simp
  qed
  ultimately show ?case
    unfolding a by (simp add: issues_of_merge_field distinct_map_under)
qed

lemma items_issues_distinct:
  assumes "\<And>x. distinct (issues_of (parse item x))"
  shows "distinct (issues_of (parse_items item i xs))"
proof (induction xs arbitrary: i)
  case Nil
  then show ?case by simp
next
  case (Cons x xs)
  have "set (map (under (Index i)) (issues_of (parse item x)))
      \<inter> set (issues_of (parse_items item (Suc i) xs)) = {}"
    by (auto dest!: items_issue_index)
  with Cons assms show ?case
    by (simp add: issues_of_merge_item distinct_map_under)
qed

lemma field_issues_distinct:
  assumes "\<And>x. distinct (issues_of (parse s x))"
  shows "distinct (issues_of (parse_field s vo))"
  using assms by (cases vo) simp_all

lemma parse_issues_distinct:
  "wf_schema s \<Longrightarrow> distinct (issues_of (parse s v))"
proof (induction s arbitrary: v)
  case ZString
  then show ?case by (cases v) simp_all
next
  case (ZEnum vals)
  then show ?case by (cases v) simp_all
next
  case (ZArray item)
  then show ?case
    by (cases v) (simp_all add: items_issues_distinct)
next
  case (ZObject shape)
  have d: "distinct (map fst shape)" and wf: "wf_shape shape"
    using ZObject.prems by simp_all
  have "distinct (issues_of (parse_field s vo))" if "(k, s) \<in> set shape" for k s vo
  proof (rule field_issues_distinct)
    fix x
    have "wf_schema s" using wf that by (rule wf_shape_member)
    then show "distinct (issues_of (parse s x))"
      using ZObject.IH [of "(k, s)" s x] that by simp
  qed
  with d show ?case
    by (cases v) (simp_all add: shape_issues_distinct)
next
  case (ZOptional s)
  then show ?case by simp
next
  case (ZNullable s)
  then show ?case by (cases v) simp_all
qed

lemma parse_field_issues_distinct:
  "wf_schema s \<Longrightarrow> distinct (issues_of (parse_field s vo))"
  by (rule field_issues_distinct) (rule parse_issues_distinct)

subsection \<open>The validated value\<close>

text \<open>
  The validated value of an object holds the declared keys the input has, in the
  order of the shape; it is deep-equal to the input exactly when the input carries
  no extra key, and carries no extra key itself.
\<close>

lemma merge_field_Inr:
  "(merge_field k r rs = Inr out) =
     (\<exists>vo out'. r = Inr vo \<and> rs = Inr out'
        \<and> out = (case vo of None \<Rightarrow> out' | Some d \<Rightarrow> (k, d) # out'))"
  by (cases "(k, r, rs)" rule: merge_field.cases) auto

lemma merge_item_Inr:
  "(merge_item i r rs = Inr out) = (\<exists>d out'. r = Inr d \<and> rs = Inr out' \<and> out = d # out')"
  by (cases "(i, r, rs)" rule: merge_item.cases) auto

lemma parse_field_Inr:
  "(parse_field s vo = Inr r) =
     (case vo of
        None \<Rightarrow> accepts_undefined s \<and> r = None
      | Some v \<Rightarrow> \<exists>d. parse s v = Inr d \<and> r = Some d)"
  by (cases vo; cases "parse s (the vo)") auto

lemma parse_shape_keys:
  "parse_shape shape kv = Inr out \<Longrightarrow>
   map fst out = filter (\<lambda>k. map_of kv k \<noteq> None) (map fst shape)"
proof (induction shape arbitrary: out)
  case Nil
  then show ?case by simp
next
  case (Cons a shape)
  obtain k s where a: "a = (k, s)" by (cases a)
  from Cons.prems obtain vo out' where
    f: "parse_field s (map_of kv k) = Inr vo" and r: "parse_shape shape kv = Inr out'"
    and out: "out = (case vo of None \<Rightarrow> out' | Some d \<Rightarrow> (k, d) # out')"
    unfolding a by (auto simp: merge_field_Inr)
  from f show ?case
    unfolding a out using Cons.IH [OF r]
    by (auto simp: parse_field_Inr split: option.splits)
qed

lemma has_extra_keys_JNull [simp]: "has_extra_keys s JNull = False"
  by (induction s) simp_all

lemma shape_entries_equal:
  assumes "\<And>k s v d. (k, s) \<in> set shape \<Longrightarrow> parse s v = Inr d \<Longrightarrow>
             deep_equal d v = (\<not> has_extra_keys s v)"
  shows "parse_shape shape kv = Inr out \<Longrightarrow> entries_equal out kv = (\<not> shape_has_extra shape kv)"
  using assms
proof (induction shape arbitrary: out)
  case Nil
  then show ?case by simp
next
  case (Cons a shape)
  obtain k s where a: "a = (k, s)" by (cases a)
  from Cons.prems(1) obtain vo out' where
    f: "parse_field s (map_of kv k) = Inr vo" and r: "parse_shape shape kv = Inr out'"
    and out: "out = (case vo of None \<Rightarrow> out' | Some d \<Rightarrow> (k, d) # out')"
    unfolding a by (auto simp: merge_field_Inr)
  have ih: "entries_equal out' kv = (\<not> shape_has_extra shape kv)"
  proof (rule Cons.IH [OF r])
    fix k' s' v d assume "(k', s') \<in> set shape" "parse s' v = Inr d"
    then show "deep_equal d v = (\<not> has_extra_keys s' v)"
      using Cons.prems(2) [of k' s' v d] by simp
  qed
  have fld: "deep_equal d v = (\<not> has_extra_keys s v)" if "parse s v = Inr d" for v d
    using Cons.prems(2) [of k s v d] that unfolding a by simp
  from f show ?case
    unfolding a out using ih fld
    by (auto simp: parse_field_Inr split: option.splits)
qed

lemma items_equal_iff:
  assumes "\<And>x d. parse item x = Inr d \<Longrightarrow> deep_equal d x = (\<not> has_extra_keys item x)"
  shows "parse_items item i xs = Inr ds \<Longrightarrow> items_equal ds xs = (\<not> items_have_extra item xs)"
  using assms
  by (induction xs arbitrary: i ds) (auto simp: merge_item_Inr)

lemma keys_covered:
  assumes "parse_shape shape kv = Inr out"
  shows "list_all (\<lambda>k. k \<in> set (map fst out)) (map fst kv)
     = (\<not> list_ex (\<lambda>k. k \<notin> set (map fst shape)) (map fst kv))"
proof -
  have "k \<in> set (map fst out) \<longleftrightarrow> k \<in> set (map fst shape)" if "k \<in> set (map fst kv)" for k
  proof -
    from that have "map_of kv k \<noteq> None" by (simp add: map_of_eq_None_iff)
    then show ?thesis unfolding parse_shape_keys [OF assms] by simp
  qed
  then show ?thesis
    by (auto simp: list_all_iff list_ex_iff)
qed

lemma parse_deep_equal:
  "parse s v = Inr d \<Longrightarrow> deep_equal d v = (\<not> has_extra_keys s v)"
proof (induction s arbitrary: v d)
  case ZString
  then show ?case by (cases v) auto
next
  case (ZEnum vals)
  then show ?case by (cases v) (auto split: if_splits)
next
  case (ZArray item)
  show ?case
  proof (cases v)
    case (JArr xs)
    with ZArray.prems obtain ds where ds: "parse_items item 0 xs = Inr ds" and d: "d = JArr ds"
      by (cases "parse_items item 0 xs") auto
    show ?thesis
      unfolding JArr d using items_equal_iff [of item 0 xs ds, OF ZArray.IH ds] by simp
  qed (use ZArray.prems in auto)
next
  case (ZObject shape)
  show ?case
  proof (cases v)
    case (JObj kv)
    with ZObject.prems obtain out where out: "parse_shape shape kv = Inr out" and d: "d = JObj out"
      by (cases "parse_shape shape kv") auto
    have "entries_equal out kv = (\<not> shape_has_extra shape kv)"
    proof (rule shape_entries_equal [OF _ out])
      fix k s v d assume "(k, s) \<in> set shape" "parse s v = Inr d"
      then show "deep_equal d v = (\<not> has_extra_keys s v)"
        using ZObject.IH [of "(k, s)" s v d] by simp
    qed
    then show ?thesis
      unfolding JObj d using keys_covered [OF out] by auto
  qed (use ZObject.prems in auto)
next
  case (ZOptional s)
  then show ?case by simp
next
  case (ZNullable s)
  then show ?case by (cases v) auto
qed





subsection \<open>Payloads that satisfy the shape\<close>

lemma shape_conforms_iff:
  assumes "\<And>k s v. (k, s) \<in> set shape \<Longrightarrow> conforms s v = (\<not> isl (parse s v))"
  shows "shape_conforms shape kv = (\<not> isl (parse_shape shape kv))"
  using assms
proof (induction shape)
  case Nil
  then show ?case by simp
next
  case (Cons a shape)
  obtain k s where a: "a = (k, s)" by (cases a)
  have "field_conforms s vo = (\<not> isl (parse_field s vo))" for vo
    using Cons.prems [of k s] unfolding a by (cases vo) (simp_all add: isl_map_sum)
  moreover have "shape_conforms shape kv = (\<not> isl (parse_shape shape kv))"
  proof (rule Cons.IH)
    fix k' s' v assume "(k', s') \<in> set shape"
    then show "conforms s' v = (\<not> isl (parse s' v))"
      using Cons.prems [of k' s' v] by simp
  qed
  ultimately show ?case unfolding a by simp
qed

lemma items_conform_iff:
  assumes "\<And>x. conforms item x = (\<not> isl (parse item x))"
  shows "items_conform item xs = (\<not> isl (parse_items item i xs))"
  using assms by (induction xs arbitrary: i) simp_all

lemma conforms_iff_parse: "conforms s v = (\<not> isl (parse s v))"
proof (induction s arbitrary: v)
  case ZString
  show ?case by (cases v) simp_all
next
  case (ZEnum vals)
  show ?case by (cases v) simp_all
next
  case (ZArray item)
  then show ?case
    by (cases v) (simp_all add: isl_map_sum items_conform_iff [of item _ 0])
next
  case (ZObject shape)
  have "shape_conforms shape kv = (\<not> isl (parse_shape shape kv))" for kv
  proof (rule shape_conforms_iff)
    fix k s v assume "(k, s) \<in> set shape"
    then show "conforms s v = (\<not> isl (parse s v))"
      using ZObject.IH [of "(k, s)" s v] by simp
  qed
  then show ?case
    by (cases v) (simp_all add: isl_map_sum)
next
  case (ZOptional s)
  then show ?case by simp
next
  case (ZNullable s)
  then show ?case by (cases v) simp_all
qed

lemma conforms_parse: "conforms s v \<Longrightarrow> \<exists>d. parse s v = Inr d"
  unfolding conforms_iff_parse by (cases "parse s v") simp_all

lemma conforms_iff_no_violation:
  assumes "wf_schema s"
  shows "conforms s v = (\<forall>p. violation_at s (Some v) p = None)"
proof -
  have "isl (parse s v) = (\<exists>p c. violation_at s (Some v) p = Some c)"
  proof
    assume "isl (parse s v)"
    then have "issues_of (parse s v) \<noteq> []"
      by (rule parse_failure_nonempty)
    then obtain p c where "(p, c) \<in> set (issues_of (parse s v))"
      by (cases "issues_of (parse s v)") auto
    then show "\<exists>p c. violation_at s (Some v) p = Some c"
      unfolding parse_issues_iff [OF assms] by blast
  next
    assume "\<exists>p c. violation_at s (Some v) p = Some c"
    then obtain p c where "(p, c) \<in> set (issues_of (parse s v))"
      unfolding parse_issues_iff [OF assms] by blast
    then show "isl (parse s v)"
      by (cases "parse s v") auto
  qed
  then show ?thesis
    unfolding conforms_iff_parse by auto
qed

subsection \<open>Violations at a given path\<close>

lemma violation_at_lookup:
  "schema_at s p = Some s' \<Longrightarrow> lookup v p = Some v' \<Longrightarrow>
   violation_at s (Some v) p = node_violation s' (Some v')"
proof (induction p arbitrary: s v)
  case Nil
  then show ?case by simp
next
  case (Cons e p)
  show ?case
  proof (cases e)
    case (Key k)
    from Cons.prems(1) obtain shape s1 where c: "core s = ZObject shape"
      and m: "map_of shape k = Some s1" and s1: "schema_at s1 p = Some s'"
      unfolding Key by (auto split: schema.splits option.splits)
    from Cons.prems(2) obtain kv v1 where v: "v = JObj kv"
      and l: "map_of kv k = Some v1" and v1: "lookup v1 p = Some v'"
      unfolding Key by (cases v) (auto split: option.splits)
    show ?thesis
      unfolding Key v using c m l Cons.IH [OF s1 v1] by simp
  next
    case (Index i)
    from Cons.prems(1) obtain item where c: "core s = ZArray item"
      and s1: "schema_at item p = Some s'"
      unfolding Index by (auto split: schema.splits)
    from Cons.prems(2) obtain xs where v: "v = JArr xs"
      and i: "i < length xs" and v1: "lookup (xs ! i) p = Some v'"
      unfolding Index by (cases v) (auto split: if_splits)
    show ?thesis
      unfolding Index v using c i Cons.IH [OF s1 v1] by simp
  qed
qed

lemma wf_ConsultationSummaryResponseSchema: "wf_schema ConsultationSummaryResponseSchema"
  by (simp add: ConsultationSummaryResponseSchema_def ClinicalSummarySchema_def
      NextStepsSchema_def PatientFollowUpEmailSchema_def PhysicalExamFindingSchema_def
      AssessmentSchema_def PatientInstructionSchema_def NextStepActionSchema_def)

subsection \<open>The payload validator on the declared schema\<close>

lemma onmessage_complete:
  assumes "is_complete (JSON_parse m) payload"
  shows "onmessage JSON_parse s m =
     (case safeParse ConsultationSummaryResponseSchema (Some payload) of
        Inr result_data \<Rightarrow>
          Inr (s\<lparr>console := console s @ [ConsoleLog ''Stream complete, received validated data''],
                 structuredOutput := result_data, loading := False\<rparr>)
      | Inl result_error \<Rightarrow>
          Inr (s\<lparr>console := console s @ [ConsoleLog ''Stream complete, received validated data'',
                                           ConsoleError ''Validation failed:''],
                 alerts := alerts s @ [''Failed to validate response''],
                 loading := False\<rparr>))"
proof -
  from assms obtain kv where "JSON_parse m = Some (JObj kv)"
    "map_of kv ''type'' = Some (JStr ''complete'')" "map_of kv ''data'' = Some payload"
    by (cases "(JSON_parse m, payload)" rule: is_complete.cases) auto
  then show ?thesis
    by (simp add: onmessage_def onmessage_try_def Let_def split: sum.splits)
qed

lemma safeParse_conforms:
  assumes "conforms s payload"
  obtains d where "safeParse s (Some payload) = Inr (Some d)" "parse s payload = Inr d"
  using conforms_parse [OF assms] by (auto simp: safeParse_def)

text \<open>
  C2. Validation returns a result for every input, defined or not. The issues it
  reports are exactly the violations of the payload against the declared schema: a
  path with its code is reported if and only if the payload has that violation at
  that path (a missing required field or a value of the wrong primitive type as
  \<open>invalid_type\<close>, a text outside an enumeration as \<open>invalid_enum_value\<close>), no issue
  is reported twice, and validation fails if and only if there is a violation. So a
  payload with several violations gets an entry for each of them.
\<close>

theorem validation_collects_every_violation:
  "set (issues_of (safeParse ConsultationSummaryResponseSchema input))
     = {(p, c). violation_at ConsultationSummaryResponseSchema input p = Some c}
   \<and> distinct (issues_of (safeParse ConsultationSummaryResponseSchema input))
   \<and> isl (safeParse ConsultationSummaryResponseSchema input)
       = (\<exists>p c. violation_at ConsultationSummaryResponseSchema input p = Some c)"
proof (intro conjI)
  let ?S = ConsultationSummaryResponseSchema
  have mem: "((p, c) \<in> set (issues_of (safeParse ?S input))) = (violation_at ?S input p = Some c)"
    for p c
    unfolding safeParse_def
    using wf_ConsultationSummaryResponseSchema by (rule parse_field_issues_iff)
  then show "set (issues_of (safeParse ?S input)) = {(p, c). violation_at ?S input p = Some c}"
    by auto
  show "distinct (issues_of (safeParse ?S input))"
    unfolding safeParse_def
    using wf_ConsultationSummaryResponseSchema by (rule parse_field_issues_distinct)
  show "isl (safeParse ?S input) = (\<exists>p c. violation_at ?S input p = Some c)"
  proof
    assume "isl (safeParse ?S input)"
    then have "issues_of (safeParse ?S input) \<noteq> []"
      unfolding safeParse_def by (rule parse_field_failure_nonempty)
    then obtain p c where "(p, c) \<in> set (issues_of (safeParse ?S input))"
      by (cases "issues_of (safeParse ?S input)") auto
    then show "\<exists>p c. violation_at ?S input p = Some c"
      unfolding mem by blast
  next
    assume "\<exists>p c. violation_at ?S input p = Some c"
    then obtain p c where "(p, c) \<in> set (issues_of (safeParse ?S input))"
      unfolding mem by blast
    then show "isl (safeParse ?S input)"
      by (cases "safeParse ?S input") auto
  qed
qed

text \<open>
  The payload of the repository's test with every sub-object empty: fifteen required
  fields are missing, and fifteen issues are reported.
\<close>

lemma validation_example_missing_fields:
  "safeParse ConsultationSummaryResponseSchema
     (Some (JObj [(''clinical_summary'', JObj []), (''next_steps'', JObj []),
                  (''patient_email'', JObj []),
                  (''generation_timestamp'', JStr ''2025-11-15T12:00:00Z'')]))
   = Inl [([Key ''clinical_summary'', Key ''patient_name''], invalid_type),
          ([Key ''clinical_summary'', Key ''visit_date''], invalid_type),
          ([Key ''clinical_summary'', Key ''chief_complaint''], invalid_type),
          ([Key ''clinical_summary'', Key ''history_of_present_illness''], invalid_type),
          ([Key ''clinical_summary'', Key ''physical_exam_findings''], invalid_type),
          ([Key ''clinical_summary'', Key ''assessments''], invalid_type),
          ([Key ''next_steps'', Key ''actions''], invalid_type),
          ([Key ''patient_email'', Key ''greeting''], invalid_type),
          ([Key ''patient_email'', Key ''summary_of_findings''], invalid_type),
          ([Key ''patient_email'', Key ''treatment_plan''], invalid_type),
          ([Key ''patient_email'', Key ''patient_instructions''], invalid_type),
          ([Key ''patient_email'', Key ''warning_signs''], invalid_type),
          ([Key ''patient_email'', Key ''next_steps_timeline''], invalid_type),
          ([Key ''patient_email'', Key ''closing''], invalid_type),
          ([Key ''patient_email'', Key ''physician_signature''], invalid_type)]"
  by code_simp

text \<open>
  The three enumerated fields of the payload: the severity of an assessment, and the
  action type and the priority of a next-step action.
\<close>

lemma enumerated_fields:
  "schema_at ConsultationSummaryResponseSchema
     [Key ''clinical_summary'', Key ''assessments'', Index i, Key ''severity'']
     = Some (ZNullable (ZOptional (ZEnum [''mild'', ''moderate'', ''severe''])))"
  "schema_at ConsultationSummaryResponseSchema
     [Key ''next_steps'', Key ''actions'', Index i, Key ''action_type'']
     = Some (ZEnum [''diagnostic'', ''treatment'', ''referral'', ''follow-up'', ''education''])"
  "schema_at ConsultationSummaryResponseSchema
     [Key ''next_steps'', Key ''actions'', Index i, Key ''priority'']
     = Some (ZNullable (ZOptional (ZEnum [''high'', ''medium'', ''low''])))"
  by (simp_all add: ConsultationSummaryResponseSchema_def ClinicalSummarySchema_def
      AssessmentSchema_def NextStepsSchema_def NextStepActionSchema_def)

text \<open>
  C3. When an enumerated field of the payload (a path whose declared schema is an
  enumeration, under its \<open>optional\<close> and \<open>nullable\<close> wrappers) holds a value that is
  not one of its tokens, validation fails and reports that path: with
  \<open>invalid_enum_value\<close> for a text, such as \<open>Mild\<close> for \<open>mild\<close>, since tokens are
  compared as they are written, and with \<open>invalid_type\<close> for any other value. The
  value \<open>null\<close> on a field declared \<open>nullable\<close> (severity and priority) stands for
  the absence of a value and is accepted.
\<close>

theorem enum_outside_set_rejected:
  assumes "schema_at ConsultationSummaryResponseSchema path = Some s"
    and "core s = ZEnum vals"
    and "lookup payload path = Some v"
    and "v \<notin> set (map JStr vals)"
    and "\<not> (v = JNull \<and> accepts_null s)"
  shows "\<exists>es. safeParse ConsultationSummaryResponseSchema (Some payload) = Inl es
           \<and> (path, case v of JStr x \<Rightarrow> invalid_enum_value | _ \<Rightarrow> invalid_type) \<in> set es"
proof -
  let ?S = ConsultationSummaryResponseSchema
  let ?c = "case v of JStr x \<Rightarrow> invalid_enum_value | _ \<Rightarrow> invalid_type"
  have "violation_at ?S (Some payload) path = node_violation s (Some v)"
    using assms(1,3) by (rule violation_at_lookup)
  also have "\<dots> = type_violation (ZEnum vals) v"
    using assms(2,5) by auto
  also have "\<dots> = Some ?c"
    using assms(4) by (cases v) auto
  finally have "(path, ?c) \<in> set (issues_of (safeParse ?S (Some payload)))"
    unfolding safeParse_def
    using parse_issues_iff [OF wf_ConsultationSummaryResponseSchema] by simp
  then show ?thesis
    by (cases "safeParse ?S (Some payload)") auto
qed

theorem enum_outside_set_rejected_witness:
  "schema_at ConsultationSummaryResponseSchema
     [Key ''clinical_summary'', Key ''assessments'', Index 0, Key ''severity'']
     = Some (ZNullable (ZOptional (ZEnum [''mild'', ''moderate'', ''severe''])))
   \<and> core (ZNullable (ZOptional (ZEnum [''mild'', ''moderate'', ''severe''])))
       = ZEnum [''mild'', ''moderate'', ''severe'']
   \<and> lookup (sample_payload (JStr ''Mild'') [])
        [Key ''clinical_summary'', Key ''assessments'', Index 0, Key ''severity'']
       = Some (JStr ''Mild'')
   \<and> JStr ''Mild'' \<notin> set (map JStr [''mild'', ''moderate'', ''severe''])
   \<and> (\<exists>es. safeParse ConsultationSummaryResponseSchema (Some (sample_payload (JStr ''Mild'') []))
               = Inl es
           \<and> ([Key ''clinical_summary'', Key ''assessments'', Index 0, Key ''severity''],
               invalid_enum_value) \<in> set es)"
proof -
  have a: "schema_at ConsultationSummaryResponseSchema
      [Key ''clinical_summary'', Key ''assessments'', Index 0, Key ''severity'']
      = Some (ZNullable (ZOptional (ZEnum [''mild'', ''moderate'', ''severe''])))"
    by (rule enumerated_fields)
  have b: "core (ZNullable (ZOptional (ZEnum [''mild'', ''moderate'', ''severe''])))
      = ZEnum [''mild'', ''moderate'', ''severe'']"
    by simp
  have c: "lookup (sample_payload (JStr ''Mild'') [])
      [Key ''clinical_summary'', Key ''assessments'', Index 0, Key ''severity'']
      = Some (JStr ''Mild'')"
    by code_simp
  have d: "JStr ''Mild'' \<notin> set (map JStr [''mild'', ''moderate'', ''severe''])"
    by simp
  have e: "\<not> (JStr ''Mild'' = JNull
      \<and> accepts_null (ZNullable (ZOptional (ZEnum [''mild'', ''moderate'', ''severe'']))))"
    by simp
  show ?thesis
    using a b c d enum_outside_set_rejected [OF a b c d e] by simp
qed

text \<open>The repository's test on \<open>AssessmentSchema\<close>, beside the accepted spellings.\<close>

lemma assessment_example_case_sensitive:
  "parse AssessmentSchema (JObj [(''diagnosis'', JStr ''Migraine''), (''severity'', JStr ''Mild'')])
     = Inl [([Key ''severity''], invalid_enum_value)]"
  "parse AssessmentSchema (JObj [(''diagnosis'', JStr ''Migraine''), (''severity'', JStr ''mild'')])
     = Inr (JObj [(''diagnosis'', JStr ''Migraine''), (''severity'', JStr ''mild'')])"
  "parse AssessmentSchema (JObj [(''diagnosis'', JStr ''Migraine''), (''severity'', JNull)])
     = Inr (JObj [(''diagnosis'', JStr ''Migraine''), (''severity'', JNull)])"
  by code_simp+

text \<open>
  C1, as amended. A payload that satisfies the declared shape, delivered in a
  \<open>complete\<close> message, is validated successfully, and the handler stores the
  validated value as the structured output and clears the loading flag. The
  validated value is deep-equal to the payload whenever the payload carries no key
  beyond the declared ones.
\<close>

theorem conforming_payload_done:
  assumes "is_complete (JSON_parse m) payload"
    and "conforms ConsultationSummaryResponseSchema payload"
  shows "\<exists>d. safeParse ConsultationSummaryResponseSchema (Some payload) = Inr (Some d)
           \<and> onmessage JSON_parse s m =
               Inr (s\<lparr>console := console s
                        @ [ConsoleLog ''Stream complete, received validated data''],
                      structuredOutput := Some d, loading := False\<rparr>)
           \<and> (\<not> has_extra_keys ConsultationSummaryResponseSchema payload
                \<longrightarrow> deep_equal d payload)"
proof -
  from assms(2) obtain d
    where sp: "safeParse ConsultationSummaryResponseSchema (Some payload) = Inr (Some d)"
      and p: "parse ConsultationSummaryResponseSchema payload = Inr d"
    by (rule safeParse_conforms)
  have "onmessage JSON_parse s m =
      Inr (s\<lparr>console := console s @ [ConsoleLog ''Stream complete, received validated data''],
             structuredOutput := Some d, loading := False\<rparr>)"
    using onmessage_complete [of JSON_parse m payload s] assms(1) sp by simp
  moreover have "deep_equal d payload
      = (\<not> has_extra_keys ConsultationSummaryResponseSchema payload)"
    using p by (rule parse_deep_equal)
  ultimately show ?thesis using sp by simp
qed

theorem conforming_payload_done_witness:
  "is_complete (sample_parse (sample_message [])) (sample_payload (JStr ''mild'') [])
   \<and> conforms ConsultationSummaryResponseSchema (sample_payload (JStr ''mild'') [])
   \<and> \<not> has_extra_keys ConsultationSummaryResponseSchema (sample_payload (JStr ''mild'') [])
   \<and> (\<exists>d. safeParse ConsultationSummaryResponseSchema (Some (sample_payload (JStr ''mild'') []))
              = Inr (Some d)
          \<and> onmessage sample_parse streaming (sample_message [])
              = Inr (streaming\<lparr>console := [ConsoleLog ''Stream complete, received validated data''],
                                structuredOutput := Some d, loading := False\<rparr>)
          \<and> deep_equal d (sample_payload (JStr ''mild'') []))"
proof -
  have a: "is_complete (sample_parse (sample_message [])) (sample_payload (JStr ''mild'') [])"
    by (simp add: sample_parse_values)
  have b: "conforms ConsultationSummaryResponseSchema (sample_payload (JStr ''mild'') [])"
    by code_simp
  have c: "\<not> has_extra_keys ConsultationSummaryResponseSchema (sample_payload (JStr ''mild'') [])"
    by code_simp
  show ?thesis
    using a b c
      conforming_payload_done [of sample_parse "sample_message []"
        "sample_payload (JStr ''mild'') []" streaming]
    by (auto simp: streaming_def)
qed

text \<open>
  The claim as first stated fails: the sample payload with the further top-level key
  \<open>debug\<close> satisfies the shape, and the structured output the handler stores for it
  is the payload without that key, which is not deep-equal to the payload.
\<close>

theorem conforming_payload_not_deep_equal:
  \<open>is_complete (sample_parse (sample_message '',"debug":true''))
     (sample_payload (JStr ''mild'') [(''debug'', JBool True)])
   \<and> conforms ConsultationSummaryResponseSchema
        (sample_payload (JStr ''mild'') [(''debug'', JBool True)])
   \<and> onmessage sample_parse streaming (sample_message '',"debug":true'')
       = Inr (streaming\<lparr>console := [ConsoleLog ''Stream complete, received validated data''],
                         structuredOutput := Some (sample_payload (JStr ''mild'') []),
                         loading := False\<rparr>)
   \<and> \<not> deep_equal (sample_payload (JStr ''mild'') [])
          (sample_payload (JStr ''mild'') [(''debug'', JBool True)])\<close>
proof -
  have a: \<open>is_complete (sample_parse (sample_message '',"debug":true''))
      (sample_payload (JStr ''mild'') [(''debug'', JBool True)])\<close>
    by (simp add: sample_parse_values)
  have b: "conforms ConsultationSummaryResponseSchema
      (sample_payload (JStr ''mild'') [(''debug'', JBool True)])"
    by code_simp
  have c: "safeParse ConsultationSummaryResponseSchema
      (Some (sample_payload (JStr ''mild'') [(''debug'', JBool True)]))
      = Inr (Some (sample_payload (JStr ''mild'') []))"
    by code_simp
  have d: "\<not> deep_equal (sample_payload (JStr ''mild'') [])
      (sample_payload (JStr ''mild'') [(''debug'', JBool True)])"
    by code_simp
  show ?thesis
    using a b d
      onmessage_complete [of sample_parse \<open>sample_message '',"debug":true''\<close>
        "sample_payload (JStr ''mild'') [(''debug'', JBool True)]" streaming]
    by (simp add: c streaming_def)
qed



end
